theory Spec2Isabelle
  imports Complex_Main
begin

section \<open>JavaScript values used by dns402\<close>

text \<open>
  A JavaScript number is an IEEE 754 double: NaN, an infinity or a finite value.
  \<open>Fin r\<close> stands for the double nearest to the real \<open>r\<close>, so that a decimal literal,
  which denotes the double nearest to it, is written as it is: \<open>Fin (99 / 100)\<close> is the
  number \<open>0.99\<close>. Every operation on numbers reads its operands as doubles and rounds
  its result.
\<close>

datatype number = NaN | PosInf | NegInf | Fin real

subsection \<open>Rounding to a double\<close>

text \<open>
  The number of binary digits of a natural number, the powers of two, and the binary
  exponent of a positive real \<open>x\<close>: \<open>pow2 (expo x) \<le> x < pow2 (expo x + 1)\<close>.
\<close>

fun bit_length :: "nat \<Rightarrow> nat" where
  "bit_length n = (if n = 0 then 0 else Suc (bit_length (n div 2)))"

declare bit_length.simps [simp del]

definition pow2 :: "int \<Rightarrow> real" where
  "pow2 e = (if e \<ge> 0 then 2 ^ nat e else 1 / 2 ^ nat (- e))"

definition expo :: "real \<Rightarrow> int" where
  "expo x = (if x \<ge> 1 then int (bit_length (nat \<lfloor>x\<rfloor>)) - 1
             else - int (bit_length (nat (\<lceil>1 / x\<rceil> - 1))))"

text \<open>The integer nearest to a real, the even one of the two when it lies half way.\<close>

definition round_even :: "real \<Rightarrow> int" where
  "round_even r =
     (if r - of_int \<lfloor>r\<rfloor> < 1 / 2 then \<lfloor>r\<rfloor>
      else if r - of_int \<lfloor>r\<rfloor> > 1 / 2 then \<lfloor>r\<rfloor> + 1
      else if even \<lfloor>r\<rfloor> then \<lfloor>r\<rfloor> else \<lfloor>r\<rfloor> + 1)"

text \<open>
  The doubles around \<open>x\<close> are the multiples of \<open>ulp x\<close>: 53 binary digits, and below
  \<open>pow2 (- 1022)\<close> the fixed step \<open>pow2 (- 1074)\<close> of the subnormal numbers.
  \<open>nearest x\<close> is \<open>x\<close> rounded to nearest, ties to even, with the exponent unbounded
  above; \<open>rnd x\<close> is the double for \<open>x\<close>, an infinity when the rounded value reaches
  \<open>pow2 1024\<close>.
\<close>

definition ulp :: "real \<Rightarrow> real" where
  "ulp x = pow2 (max (expo \<bar>x\<bar>) (- 1022) - 52)"

definition nearest :: "real \<Rightarrow> real" where
  "nearest x = of_int (round_even (x / ulp x)) * ulp x"

definition rnd :: "real \<Rightarrow> number" where
  "rnd x = (if pow2 1024 \<le> nearest x then PosInf
            else if nearest x \<le> - pow2 1024 then NegInf
            else Fin (nearest x))"

text \<open>The double that a number stands for.\<close>

fun dbl :: "number \<Rightarrow> number" where
  "dbl (Fin r) = rnd r"
| "dbl NaN = NaN"
| "dbl PosInf = PosInf"
| "dbl NegInf = NegInf"

subsection \<open>The operations on doubles\<close>

text \<open>
  Truthiness, the comparisons, and the exact results of the arithmetic operations on
  the values of doubles. \<open>0\<close> and \<open>NaN\<close> are falsy; a comparison is false as soon as one
  side is NaN. The model has one zero: the sign of a zero shows only when a number is
  divided by it (the zero is taken as \<open>+0\<close> there), and dns402 divides by
  \<open>LAMPORTS_PER_SOL\<close> only.
\<close>

fun val_truthy :: "number \<Rightarrow> bool" where
  "val_truthy NaN = False"
| "val_truthy (Fin r) = (r \<noteq> 0)"
| "val_truthy _ = True"

fun val_gt :: "number \<Rightarrow> number \<Rightarrow> bool" where
  "val_gt NaN _ = False"
| "val_gt _ NaN = False"
| "val_gt (Fin a) (Fin b) = (a > b)"
| "val_gt PosInf PosInf = False"
| "val_gt PosInf _ = True"
| "val_gt NegInf _ = False"
| "val_gt (Fin a) NegInf = True"
| "val_gt (Fin a) PosInf = False"

fun val_ge :: "number \<Rightarrow> number \<Rightarrow> bool" where
  "val_ge NaN _ = False"
| "val_ge _ NaN = False"
| "val_ge (Fin a) (Fin b) = (a \<ge> b)"
| "val_ge PosInf _ = True"
| "val_ge NegInf NegInf = True"
| "val_ge NegInf _ = False"
| "val_ge (Fin a) NegInf = True"
| "val_ge (Fin a) PosInf = False"

fun val_add :: "number \<Rightarrow> number \<Rightarrow> number" where
  "val_add NaN _ = NaN"
| "val_add _ NaN = NaN"
| "val_add (Fin a) (Fin b) = Fin (a + b)"
| "val_add PosInf NegInf = NaN"
| "val_add NegInf PosInf = NaN"
| "val_add PosInf _ = PosInf"
| "val_add NegInf _ = NegInf"
| "val_add (Fin a) PosInf = PosInf"
| "val_add (Fin a) NegInf = NegInf"

fun val_neg :: "number \<Rightarrow> number" where
  "val_neg NaN = NaN"
| "val_neg PosInf = NegInf"
| "val_neg NegInf = PosInf"
| "val_neg (Fin r) = Fin (- r)"

fun num_sign :: "number \<Rightarrow> int" where
  "num_sign NaN = 0"
| "num_sign PosInf = 1"
| "num_sign NegInf = - 1"
| "num_sign (Fin r) = (if r > 0 then 1 else if r < 0 then - 1 else 0)"

fun val_mul :: "number \<Rightarrow> number \<Rightarrow> number" where
  "val_mul NaN _ = NaN"
| "val_mul _ NaN = NaN"
| "val_mul (Fin a) (Fin b) = Fin (a * b)"
| "val_mul a b =
     (if num_sign a * num_sign b > 0 then PosInf
      else if num_sign a * num_sign b < 0 then NegInf else NaN)"

fun val_div :: "number \<Rightarrow> number \<Rightarrow> number" where
  "val_div NaN _ = NaN"
| "val_div _ NaN = NaN"
| "val_div (Fin a) (Fin b) =
     (if b = 0 then (if a > 0 then PosInf else if a < 0 then NegInf else NaN)
      else Fin (a / b))"
| "val_div (Fin a) _ = Fin 0"
| "val_div a (Fin b) =
     (if num_sign a * (if b < 0 then - 1 else 1) > 0 then PosInf else NegInf)"
| "val_div _ _ = NaN"

text \<open>
  The operations of JavaScript: the truthiness of a number, \<open>a > b\<close>, \<open>a >= b\<close>,
  \<open>a < b\<close>, \<open>a + b\<close>, \<open>a - b\<close>, \<open>a * b\<close> and \<open>a / b\<close>. The operands are read as doubles
  and the exact result is rounded to a double.
\<close>

definition num_truthy :: "number \<Rightarrow> bool" where
  "num_truthy n = val_truthy (dbl n)"

definition num_gt :: "number \<Rightarrow> number \<Rightarrow> bool" where
  "num_gt a b = val_gt (dbl a) (dbl b)"

definition num_ge :: "number \<Rightarrow> number \<Rightarrow> bool" where
  "num_ge a b = val_ge (dbl a) (dbl b)"

definition num_lt :: "number \<Rightarrow> number \<Rightarrow> bool" where
  "num_lt a b = num_gt b a"

definition num_add :: "number \<Rightarrow> number \<Rightarrow> number" where
  "num_add a b = dbl (val_add (dbl a) (dbl b))"

definition num_sub :: "number \<Rightarrow> number \<Rightarrow> number" where
  "num_sub a b = dbl (val_add (dbl a) (val_neg (dbl b)))"

definition num_mul :: "number \<Rightarrow> number \<Rightarrow> number" where
  "num_mul a b = dbl (val_mul (dbl a) (dbl b))"

definition num_div :: "number \<Rightarrow> number \<Rightarrow> number" where
  "num_div a b = dbl (val_div (dbl a) (dbl b))"

text \<open>\<open>x || d\<close> for an optional number \<open>x\<close> (\<open>undefined\<close> is \<open>None\<close>).\<close>

definition num_or :: "number option \<Rightarrow> number \<Rightarrow> number" where
  "num_or x d = (case x of None \<Rightarrow> d | Some n \<Rightarrow> if num_truthy n then n else d)"

subsection \<open>Strings\<close>

text \<open>
  Text is a list of 8-bit characters, one per code unit. \<open>is_ws\<close> is the white space
  that \<open>String.prototype.trim\<close>, \<open>parseFloat\<close> and \<open>parseInt\<close> strip, as far as it
  lies in that range: TAB, LF, VT, FF, CR, SP and NBSP.
\<close>

definition is_ws :: "char \<Rightarrow> bool" where
  "is_ws c = (of_char c \<in> {9, 10, 11, 12, 13, 32, 160 :: nat})"

definition js_trim :: "string \<Rightarrow> string" where
  "js_trim s = rev (dropWhile is_ws (rev (dropWhile is_ws s)))"

text \<open>
  \<open>s.split(sep)\<close> for a one-character separator: the pieces between the separators,
  never an empty array (\<open>''''.split(sep)\<close> is \<open>['''']\<close>).
\<close>

fun js_split :: "char \<Rightarrow> string \<Rightarrow> string list" where
  "js_split sep [] = [[]]"
| "js_split sep (c # cs) =
     (if c = sep then [] # js_split sep cs
      else (case js_split sep cs of
              [] \<Rightarrow> [[c]]
            | p # ps \<Rightarrow> (c # p) # ps))"

text \<open>
  \<open>toLowerCase\<close> and \<open>toUpperCase\<close> on the code units below 256. \<open>toLowerCase\<close> moves
  \<open>A\<close> to \<open>Z\<close> and the capital letters U+00C0 to U+00DE (the multiplication sign U+00D7
  is none) 32 up. \<open>toUpperCase\<close> moves \<open>a\<close> to \<open>z\<close> and the small letters U+00E0 to
  U+00FE (the division sign U+00F7 is none) 32 down, and writes \<open>SS\<close> for the sharp s
  U+00DF. The capitals of the micro sign U+00B5 and of the letter U+00FF are the code
  units U+039C and U+0178, which this type of text does not hold: \<open>upper_outside\<close> names
  these two letters, \<open>toUpperCase\<close> leaves them in place, and what is stated of
  \<open>toUpperCase\<close> is stated for texts without them.
\<close>

definition lower_char :: "char \<Rightarrow> char" where
  "lower_char c =
     (if (65 \<le> (of_char c :: nat) \<and> (of_char c :: nat) \<le> 90)
         \<or> (192 \<le> (of_char c :: nat) \<and> (of_char c :: nat) \<le> 222 \<and> (of_char c :: nat) \<noteq> 215)
      then char_of (of_char c + 32 :: nat) else c)"

definition toLowerCase :: "string \<Rightarrow> string" where
  "toLowerCase s = map lower_char s"

definition upper_outside :: "char \<Rightarrow> bool" where
  "upper_outside c = (of_char c \<in> {181, 255 :: nat})"

definition upper_chars :: "char \<Rightarrow> string" where
  "upper_chars c =
     (if (of_char c :: nat) = 223 then ''SS''
      else if (97 \<le> (of_char c :: nat) \<and> (of_char c :: nat) \<le> 122)
         \<or> (224 \<le> (of_char c :: nat) \<and> (of_char c :: nat) \<le> 254 \<and> (of_char c :: nat) \<noteq> 247)
      then [char_of (of_char c - 32 :: nat)] else [c])"

definition toUpperCase :: "string \<Rightarrow> string" where
  "toUpperCase s = concat (map upper_chars s)"

subsection \<open>parseFloat and parseInt\<close>

definition is_digit :: "char \<Rightarrow> bool" where
  "is_digit c = (48 \<le> (of_char c :: nat) \<and> (of_char c :: nat) \<le> 57)"

definition digit_val :: "char \<Rightarrow> nat" where
  "digit_val c = of_char c - 48"

definition digits_val :: "string \<Rightarrow> nat" where
  "digits_val ds = foldl (\<lambda>a c. 10 * a + digit_val c) 0 ds"

text \<open>An optional sign in front of a numeric literal: the sign and the rest.\<close>

fun take_sign :: "string \<Rightarrow> bool \<times> string" where
  "take_sign [] = (False, [])"
| "take_sign (c # cs) =
     (if c = CHR ''-'' then (True, cs)
      else if c = CHR ''+'' then (False, cs)
      else (False, c # cs))"

text \<open>
  The exponent part of a decimal literal, if the text starts with one:
  \<open>e\<close> or \<open>E\<close>, an optional sign and at least one digit. Without a digit the
  \<open>e\<close> is not part of the literal and the exponent is 0.
\<close>

definition exponent_part :: "string \<Rightarrow> int" where
  "exponent_part s =
     (case s of
        [] \<Rightarrow> 0
      | c # cs \<Rightarrow>
          if c = CHR ''e'' \<or> c = CHR ''E'' then
            (case take_sign cs of
               (neg, r) \<Rightarrow>
                 if takeWhile is_digit r = [] then 0
                 else if neg then - int (digits_val (takeWhile is_digit r))
                 else int (digits_val (takeWhile is_digit r)))
          else 0)"

definition pow10 :: "int \<Rightarrow> real" where
  "pow10 e = (if e \<ge> 0 then 10 ^ nat e else 1 / 10 ^ nat (- e))"

text \<open>
  \<open>parseFloat(s)\<close>: leading white space is skipped, then the longest prefix that is a
  decimal literal (sign, \<open>Infinity\<close>, or digits with an optional fraction and exponent)
  is read; NaN when there is none.
\<close>

definition parseFloat :: "string \<Rightarrow> number" where
  "parseFloat s =
     (case take_sign (dropWhile is_ws s) of
        (neg, r) \<Rightarrow>
          if take 8 r = ''Infinity'' then (if neg then NegInf else PosInf)
          else
            let ip = takeWhile is_digit r;
                r1 = dropWhile is_digit r;
                has_dot = (r1 \<noteq> [] \<and> hd r1 = CHR ''.'');
                fp = (if has_dot then takeWhile is_digit (tl r1) else []);
                r2 = (if has_dot then dropWhile is_digit (tl r1) else r1)
            in if ip = [] \<and> fp = [] then NaN
               else
                 let m = real (digits_val (ip @ fp)) *
                         pow10 (exponent_part r2 - int (length fp))
                 in Fin (if neg then - m else m))"

text \<open>
  \<open>parseInt(s, 10)\<close>: leading white space is skipped, then a sign and the longest run
  of decimal digits; NaN when there is no digit.
\<close>

definition parseInt10 :: "string \<Rightarrow> number" where
  "parseInt10 s =
     (case take_sign (dropWhile is_ws s) of
        (neg, r) \<Rightarrow>
          if takeWhile is_digit r = [] then NaN
          else
            let n = real (digits_val (takeWhile is_digit r))
            in Fin (if neg then - n else n))"

section \<open>The record codec (core/dns.ts)\<close>

text \<open>
  \<open>generateRecord\<close> takes the fields below; a \<open>DNS402Record\<close> has them all and
  the version and network besides, so a decoded record can be encoded again.
\<close>

record GenerateConfig =
  price :: number
  currency :: string
  wallet :: string
  ttl :: "number option"
  model :: "string option"
  callback :: "string option"
  mint :: "string option"

record DNS402Record = GenerateConfig +
  version :: string
  network :: string

text \<open>
  The loop of \<open>parseRecord\<close> over the parts: \<open>[key, value] = part.split('=')\<close> takes
  the first two pieces (the value is undefined when there is no \<open>=\<close>), and the pair is
  stored, trimmed, when both are non-empty. The object \<open>data\<close> is a map from keys to
  values; \<open>parseRecord\<close> reads it at nine fixed keys only.
\<close>

definition store_pair :: "string \<Rightarrow> (string \<rightharpoonup> string) \<Rightarrow> (string \<rightharpoonup> string)" where
  "store_pair part data =
     (case js_split CHR ''='' part of
        key # value # _ \<Rightarrow>
          if key \<noteq> [] \<and> value \<noteq> [] then data(js_trim key \<mapsto> js_trim value) else data
      | _ \<Rightarrow> data)"

definition record_parts :: "string \<Rightarrow> string list" where
  "record_parts txt = filter (\<lambda>p. p \<noteq> []) (map js_trim (js_split CHR '';'' txt))"

definition parse_data :: "string \<Rightarrow> (string \<rightharpoonup> string)" where
  "parse_data txt = fold store_pair (record_parts txt) Map.empty"

text \<open>\<open>!x\<close> for an optional string: undefined and the empty string are falsy.\<close>

definition str_falsy :: "string option \<Rightarrow> bool" where
  "str_falsy x = (x = None \<or> x = Some [])"

definition parseRecord :: "string \<Rightarrow> DNS402Record option" where
  "parseRecord txt =
     (let data = parse_data txt in
      if data ''v'' \<noteq> Some ''dns402'' \<or> str_falsy (data ''p'') \<or> str_falsy (data ''c'')
         \<or> str_falsy (data ''n'') \<or> str_falsy (data ''w'')
      then None
      else Some \<lparr>
        price = parseFloat (the (data ''p'')),
        currency = toUpperCase (the (data ''c'')),
        wallet = the (data ''w''),
        ttl = (if str_falsy (data ''t'') then None else Some (parseInt10 (the (data ''t'')))),
        model = (if str_falsy (data ''m'') then Some ''per-request'' else data ''m''),
        callback = data ''cb'',
        mint = data ''mint'',
        version = the (data ''v''),
        network = toLowerCase (the (data ''n'')) \<rparr>)"

text \<open>
  \<open>generateRecord\<close>. The template literals print numbers with the engine's
  Number-to-String conversion, which is not part of the repository: it is the
  parameter \<open>show_num\<close>.
\<close>

definition opt_part :: "string \<Rightarrow> string option \<Rightarrow> string list" where
  "opt_part key v = (if str_falsy v then [] else [key @ ''='' @ the v])"

fun join :: "string \<Rightarrow> string list \<Rightarrow> string" where
  "join sep [] = []"
| "join sep [p] = p"
| "join sep (p # ps) = p @ sep @ join sep ps"

definition generateRecord :: "(number \<Rightarrow> string) \<Rightarrow> 'a GenerateConfig_scheme \<Rightarrow> string" where
  "generateRecord show_num config =
     join '';''
       ([''v=dns402'',
         ''p='' @ show_num (price config),
         ''c='' @ currency config,
         ''n=solana'',
         ''w='' @ wallet config]
        @ (case ttl config of
             None \<Rightarrow> []
           | Some n \<Rightarrow> if num_truthy n then [''t='' @ show_num n] else [])
        @ opt_part ''m'' (model config)
        @ opt_part ''cb'' (callback config)
        @ opt_part ''mint'' (mint config))"

text \<open>
  A part is skipped by the loop when it has no \<open>=\<close>, an empty key or an empty value;
  otherwise it is stored under \<open>pair_key\<close>. \<open>stored_keys\<close> are the keys present in a text.
\<close>

definition pair_ignored :: "string \<Rightarrow> bool" where
  "pair_ignored part =
     (case js_split CHR ''='' part of
        key # value # _ \<Rightarrow> key = [] \<or> value = []
      | _ \<Rightarrow> True)"

definition pair_key :: "string \<Rightarrow> string option" where
  "pair_key part =
     (case js_split CHR ''='' part of
        key # value # _ \<Rightarrow> if key \<noteq> [] \<and> value \<noteq> [] then Some (js_trim key) else None
      | _ \<Rightarrow> None)"

definition stored_keys :: "string \<Rightarrow> string list" where
  "stored_keys txt = List.map_filter pair_key (record_parts txt)"

definition required_keys :: "string list" where
  "required_keys = [''v'', ''p'', ''c'', ''n'', ''w'']"

section \<open>Payment verification (core/solana.ts)\<close>

text \<open>
  A call of a collaborator outside the repository (the RPC node, the DNS, the HTTP
  server, a callback) either throws (or rejects) or returns a value.
\<close>

datatype 'a outcome = Throws | Returns 'a

text \<open>
  What \<open>verifyPayment\<close> reads of a fetched transaction. \<open>err\<close> says that
  \<open>tx.meta.err\<close> is set; \<open>uiAmount\<close> is \<open>null\<close> or a number and \<open>tb_mint\<close> is the mint of
  the token (the field \<open>mint\<close>, which \<open>verifyPayment\<close> never reads); the balances are
  the numbers of the JSON answer of the node; the token balance lists may be absent; \<open>accountKeys\<close> is the result of \<open>message.getAccountKeys()\<close>, which
  throws on a message whose address lookups are not resolved.
\<close>

record TokenBalance =
  accountIndex :: nat
  tb_mint :: string
  owner :: "string option"
  uiAmount :: "real option"

record TransactionMeta =
  err :: bool
  preBalances :: "real list"
  postBalances :: "real list"
  preTokenBalances :: "TokenBalance list option"
  postTokenBalances :: "TokenBalance list option"

record TransactionResponse =
  meta :: "TransactionMeta option"
  accountKeys :: "string list outcome"

text \<open>
  The chain as \<open>verifyPayment\<close> sees it: \<open>connection.getTransaction\<close>, which returns
  \<open>null\<close> for an unknown signature, and the \<open>PublicKey\<close> constructor of the web3
  library, which throws on a text that is not a key. Keys are compared as their
  base58 text.
\<close>

record Chain =
  getTransaction :: "string \<Rightarrow> TransactionResponse option outcome"
  is_pubkey :: "string \<Rightarrow> bool"

text \<open>\<open>LAMPORTS_PER_SOL\<close> of the web3 library.\<close>

definition LAMPORTS_PER_SOL :: real where
  "LAMPORTS_PER_SOL = 1000000000"

text \<open>\<open>xs[i]\<close> of an array: undefined out of range.\<close>

definition nth_opt :: "'a list \<Rightarrow> nat \<Rightarrow> 'a option" where
  "nth_opt xs i = (if i < length xs then Some (xs ! i) else None)"

text \<open>
  \<open>(postBalances[i] - preBalances[i]) / LAMPORTS_PER_SOL\<close>; NaN when a balance is
  missing.
\<close>

definition sol_received :: "real list \<Rightarrow> real list \<Rightarrow> nat \<Rightarrow> number" where
  "sol_received pre post i =
     (case (nth_opt post i, nth_opt pre i) of
        (Some a, Some b) \<Rightarrow> num_div (num_sub (Fin a) (Fin b)) (Fin LAMPORTS_PER_SOL)
      | _ \<Rightarrow> NaN)"

text \<open>The loop over the account keys, from index \<open>i\<close> on.\<close>

fun sol_loop :: "string list \<Rightarrow> nat \<Rightarrow> real list \<Rightarrow> real list \<Rightarrow> string \<Rightarrow> number \<Rightarrow> bool" where
  "sol_loop [] i pre post recipient expectedAmount = False"
| "sol_loop (key # keys) i pre post recipient expectedAmount =
     (if key = recipient
         \<and> num_ge (sol_received pre post i) (num_mul expectedAmount (Fin (99 / 100)))
      then True
      else sol_loop keys (Suc i) pre post recipient expectedAmount)"

text \<open>\<open>x?.uiTokenAmount.uiAmount || 0\<close>, and \<open>postAmount - preAmount\<close>.\<close>

definition amount_or_zero :: "TokenBalance option \<Rightarrow> number" where
  "amount_or_zero b =
     num_or (case b of None \<Rightarrow> None | Some t \<Rightarrow> map_option Fin (uiAmount t)) (Fin 0)"

definition token_received :: "TokenBalance list \<Rightarrow> TokenBalance \<Rightarrow> number" where
  "token_received pres post =
     num_sub (amount_or_zero (Some post))
       (amount_or_zero (find (\<lambda>p. accountIndex p = accountIndex post) pres))"

text \<open>The loop over the post token balances.\<close>

fun token_loop :: "TokenBalance list \<Rightarrow> TokenBalance list \<Rightarrow> string \<Rightarrow> number \<Rightarrow> bool" where
  "token_loop [] pres recipient expectedAmount = False"
| "token_loop (post # posts) pres recipient expectedAmount =
     (if owner post = Some recipient
         \<and> num_ge (token_received pres post) (num_mul expectedAmount (Fin (99 / 100)))
      then True
      else token_loop posts pres recipient expectedAmount)"

definition or_empty :: "'a list option \<Rightarrow> 'a list" where
  "or_empty xs = (case xs of None \<Rightarrow> [] | Some l \<Rightarrow> l)"

text \<open>The body of the \<open>try\<close> block of \<open>verifyPayment\<close>.\<close>

definition verifyPayment_try ::
  "Chain \<Rightarrow> string \<Rightarrow> string \<Rightarrow> number \<Rightarrow> string \<Rightarrow> bool outcome" where
  "verifyPayment_try chain sig expectedRecipient expectedAmount ccy =
     (case getTransaction chain sig of
        Throws \<Rightarrow> Throws
      | Returns None \<Rightarrow> Returns False
      | Returns (Some tx) \<Rightarrow>
          (case meta tx of
             None \<Rightarrow> Returns False
           | Some m \<Rightarrow>
               if err m then Returns False
               else if \<not> is_pubkey chain expectedRecipient then Throws
               else if ccy = ''SOL'' then
                 (case accountKeys tx of
                    Throws \<Rightarrow> Throws
                  | Returns keys \<Rightarrow>
                      Returns (sol_loop keys 0 (preBalances m) (postBalances m)
                                 expectedRecipient expectedAmount))
               else
                 Returns (token_loop (or_empty (postTokenBalances m))
                            (or_empty (preTokenBalances m)) expectedRecipient expectedAmount)))"

text \<open>\<open>verifyPayment\<close>: the \<open>catch\<close> turns every exception into \<open>false\<close>.\<close>

definition verifyPayment :: "Chain \<Rightarrow> string \<Rightarrow> string \<Rightarrow> number \<Rightarrow> string \<Rightarrow> bool" where
  "verifyPayment chain sig expectedRecipient expectedAmount ccy =
     (case verifyPayment_try chain sig expectedRecipient expectedAmount ccy of
        Throws \<Rightarrow> False
      | Returns b \<Rightarrow> b)"

text \<open>
  The amounts \<open>received\<close> that the loops compute for the entries of the recipient, and
  the spec's notion of a balance-increasing account: one of them is positive. For a
  currency other than \<open>SOL\<close> these are the increases of all token accounts owned by
  the recipient: the loop looks neither at the currency nor at the mint of a balance.
\<close>

definition received_amounts :: "TransactionResponse \<Rightarrow> string \<Rightarrow> string \<Rightarrow> number list" where
  "received_amounts tx ccy recipient =
     (case meta tx of
        None \<Rightarrow> []
      | Some m \<Rightarrow>
          if ccy = ''SOL'' then
            (case accountKeys tx of
               Throws \<Rightarrow> []
             | Returns keys \<Rightarrow>
                 map (sol_received (preBalances m) (postBalances m))
                   (filter (\<lambda>i. keys ! i = recipient) [0..<length keys]))
          else
            map (token_received (or_empty (preTokenBalances m)))
              (filter (\<lambda>post. owner post = Some recipient) (or_empty (postTokenBalances m))))"

definition balance_increased :: "TransactionResponse \<Rightarrow> string \<Rightarrow> string \<Rightarrow> bool" where
  "balance_increased tx ccy recipient =
     list_ex (\<lambda>r. num_gt r (Fin 0)) (received_amounts tx ccy recipient)"

text \<open>The transaction was fetched, is not marked failed, and nothing threw.\<close>

definition readable :: "Chain \<Rightarrow> string \<Rightarrow> string \<Rightarrow> string \<Rightarrow> TransactionResponse \<Rightarrow> bool" where
  "readable chain sig expectedRecipient ccy tx =
     (getTransaction chain sig = Returns (Some tx)
      \<and> (case meta tx of None \<Rightarrow> False | Some m \<Rightarrow> \<not> err m)
      \<and> is_pubkey chain expectedRecipient
      \<and> (ccy = ''SOL'' \<longrightarrow> accountKeys tx \<noteq> Throws))"

section \<open>The server gate (server/middleware.ts)\<close>

record PaymentProof =
  signature :: string
  payer :: string
  timestamp :: number

record PaymentSession =
  s_payer :: string
  s_signature :: string
  s_expiresAt :: number

text \<open>
  An HTTP request as the gate and the client see it: the URL and the headers, keyed
  by their lower-case names. A response: the status, the headers set, and the fields
  of the JSON body.
\<close>

record HttpRequest =
  req_url :: string
  req_headers :: "string \<rightharpoonup> string"

datatype json = JStr string | JNum number

record HttpResponse =
  status :: nat
  resp_headers :: "(string \<times> string) list"
  body :: "(string \<times> json) list"

text \<open>
  \<open>onPayment\<close> returns (or its promise resolves), or it throws (or its promise
  rejects).
\<close>

datatype callback_result = Resolved | Failed

record DNS402ServerConfig =
  cfg_wallet :: string
  cfg_price :: number
  cfg_currency :: string
  sessionTTL :: "number option"
  onPayment :: "(PaymentProof \<Rightarrow> callback_result) option"

text \<open>The header names of \<open>DNS402_HEADERS\<close> (core/types.ts).\<close>

definition HDR_PRICE :: string where "HDR_PRICE = ''DNS402-Price''"
definition HDR_CURRENCY :: string where "HDR_CURRENCY = ''DNS402-Currency''"
definition HDR_NETWORK :: string where "HDR_NETWORK = ''DNS402-Network''"
definition HDR_WALLET :: string where "HDR_WALLET = ''DNS402-Wallet''"
definition HDR_SESSION_TTL :: string where "HDR_SESSION_TTL = ''DNS402-Session-TTL''"
definition HDR_PROOF :: string where "HDR_PROOF = ''X-DNS402-Proof''"
definition HDR_PAYER :: string where "HDR_PAYER = ''X-DNS402-Payer''"

text \<open>\<open>send402\<close>; numbers are printed by the engine's \<open>toString\<close>, the parameter \<open>show_num\<close>.\<close>

definition send402 :: "(number \<Rightarrow> string) \<Rightarrow> DNS402ServerConfig \<Rightarrow> HttpResponse" where
  "send402 show_num config =
     \<lparr>status = 402,
      resp_headers =
        [(HDR_PRICE, show_num (cfg_price config)),
         (HDR_CURRENCY, cfg_currency config),
         (HDR_NETWORK, ''solana''),
         (HDR_WALLET, cfg_wallet config),
         (HDR_SESSION_TTL, show_num (num_or (sessionTTL config) (Fin 3600)))],
      body =
        [(''error'', JStr ''Payment Required''),
         (''price'', JNum (cfg_price config)),
         (''currency'', JStr (cfg_currency config)),
         (''network'', JStr ''solana''),
         (''wallet'', JStr (cfg_wallet config)),
         (''sessionTTL'', JNum (num_or (sessionTTL config) (Fin 3600)))]\<rparr>"

definition send403 :: HttpResponse where
  "send403 =
     \<lparr>status = 403,
      resp_headers = [],
      body = [(''error'', JStr ''Invalid payment proof''),
              (''message'', JStr ''Payment verification failed'')]\<rparr>"

text \<open>
  The session table of one middleware instance, its read
  (\<open>session && session.expiresAt > Date.now()\<close>) and the periodic sweep.
\<close>

type_synonym sessions = "string \<rightharpoonup> PaymentSession"

definition session_get :: "sessions \<Rightarrow> string \<Rightarrow> real \<Rightarrow> PaymentSession option" where
  "session_get ss k now =
     (case ss k of
        None \<Rightarrow> None
      | Some s \<Rightarrow> if num_gt (s_expiresAt s) (Fin now) then Some s else None)"

definition sweep :: "real \<Rightarrow> sessions \<Rightarrow> sessions" where
  "sweep now ss =
     (\<lambda>k. case ss k of
             None \<Rightarrow> None
           | Some s \<Rightarrow> if num_lt (s_expiresAt s) (Fin now) then None else Some s)"

text \<open>
  What one run of the handler does: it forwards the request (\<open>next()\<close>), answers it,
  or fails without doing either (the promise of the handler rejects). The result also
  holds the session table afterwards and the calls made to the verifier and to
  \<open>onPayment\<close>, in order.
\<close>

datatype gate_outcome = Forwarded | Responded HttpResponse | Rejected

record gate_result =
  outcome :: gate_outcome
  sessions_after :: sessions
  verify_calls :: "(string \<times> string \<times> number \<times> string) list"
  onPayment_calls :: "PaymentProof list"

text \<open>
  The handler returned by \<open>dns402(config)\<close>. \<open>now i\<close> is the value of the \<open>i\<close>-th
  \<open>Date.now()\<close> of the run; the first one is read only when the table has an entry
  for the payer.
\<close>

definition dns402 ::
  "(number \<Rightarrow> string) \<Rightarrow> Chain \<Rightarrow> DNS402ServerConfig \<Rightarrow> (nat \<Rightarrow> real) \<Rightarrow> sessions
     \<Rightarrow> HttpRequest \<Rightarrow> gate_result" where
  "dns402 show_num chain config now ss req =
     (let proof_hdr = req_headers req (toLowerCase HDR_PROOF);
          payer_hdr = req_headers req (toLowerCase HDR_PAYER);
          found = (\<not> str_falsy payer_hdr \<and> ss (the payer_hdr) \<noteq> None);
          n = (if found then 1 else 0 :: nat)
      in
      if \<not> str_falsy payer_hdr \<and> session_get ss (the payer_hdr) (now 0) \<noteq> None then
        \<lparr>outcome = Forwarded, sessions_after = ss, verify_calls = [], onPayment_calls = []\<rparr>
      else if str_falsy proof_hdr \<or> str_falsy payer_hdr then
        \<lparr>outcome = Responded (send402 show_num config), sessions_after = ss,
         verify_calls = [], onPayment_calls = []\<rparr>
      else
        let calls = [(the proof_hdr, cfg_wallet config, cfg_price config, cfg_currency config)];
            isValid = verifyPayment chain (the proof_hdr) (cfg_wallet config)
                        (cfg_price config) (cfg_currency config)
        in
        if \<not> isValid then
          \<lparr>outcome = Responded send403, sessions_after = ss,
           verify_calls = calls, onPayment_calls = []\<rparr>
        else
          let session = \<lparr>s_payer = the payer_hdr, s_signature = the proof_hdr,
                         s_expiresAt =
                           num_add (Fin (now n))
                             (num_mul (num_or (sessionTTL config) (Fin 3600)) (Fin 1000))\<rparr>;
              ss' = ss(the payer_hdr \<mapsto> session)
          in
          (case onPayment config of
             None \<Rightarrow>
               \<lparr>outcome = Forwarded, sessions_after = ss',
                verify_calls = calls, onPayment_calls = []\<rparr>
           | Some cb \<Rightarrow>
               let paymentProof = \<lparr>signature = the proof_hdr, payer = the payer_hdr,
                                   timestamp = Fin (now (Suc n))\<rparr>
               in
               \<lparr>outcome = (case cb paymentProof of Resolved \<Rightarrow> Forwarded | Failed \<Rightarrow> Rejected),
                sessions_after = ss',
                verify_calls = calls, onPayment_calls = [paymentProof]\<rparr>))"

text \<open>The request has no live session: the first test of the handler fails.\<close>

definition no_live_session :: "sessions \<Rightarrow> (nat \<Rightarrow> real) \<Rightarrow> HttpRequest \<Rightarrow> bool" where
  "no_live_session ss now req =
     (str_falsy (req_headers req (toLowerCase HDR_PAYER))
      \<or> session_get ss (the (req_headers req (toLowerCase HDR_PAYER))) (now 0) = None)"

section \<open>The client (client/client.ts)\<close>

record DNS402Session =
  domain :: string
  token :: "string option"
  s_proof :: PaymentProof
  expiresAt :: number

record AutoPay =
  enabled :: bool
  maxAmount :: number
  ap_currency :: string

text \<open>
  The collaborators answer by the position of the call in the run (the number of
  effects before it), so that two calls of the same collaborator may answer
  differently. \<open>dnsResolver\<close> is the optional resolver of the configuration.
\<close>

record DNS402ClientConfig =
  autoPay :: "AutoPay option"
  sessionCache :: "bool option"
  dnsResolver :: "(nat \<Rightarrow> string \<Rightarrow> string option outcome) option"

text \<open>
  The world of the client: \<open>Date.now()\<close>, the global \<open>fetch\<close>, \<open>dns.resolveTxt\<close>,
  \<open>sendPayment\<close> (the ledger client of core/solana.ts, which submits a transaction)
  and the host name of a URL (\<open>new URL(url).hostname\<close>, which throws on a text that
  is no URL).
\<close>

record World =
  clock :: "nat \<Rightarrow> real"
  http_fetch :: "nat \<Rightarrow> HttpRequest \<Rightarrow> HttpResponse outcome"
  resolveTxt :: "nat \<Rightarrow> string \<Rightarrow> string list list outcome"
  sendPayment :: "nat \<Rightarrow> DNS402Record \<Rightarrow> PaymentProof outcome"
  hostname :: "string \<Rightarrow> string outcome"

datatype client_event =
    ClockRead
  | HttpFetch HttpRequest
  | ResolverCall string
  | ResolveTxtCall string
  | SendPaymentCall DNS402Record

text \<open>The state of a client: its session cache, and the effects performed so far.\<close>

record client_state =
  cache :: "string \<rightharpoonup> DNS402Session"
  trace :: "client_event list"

datatype client_error =
    InvalidURL
  | NoRecordFound
  | NoRecordAfter402
  | ExceedsLimit
  | CurrencyMismatch
  | PaymentRequired
  | CollaboratorFailed

definition log_event :: "client_event \<Rightarrow> client_state \<Rightarrow> client_state" where
  "log_event e st = st\<lparr>trace := trace st @ [e]\<rparr>"

text \<open>
  \<open>cached && cached.expiresAt > Date.now()\<close>, the test of \<open>getSession\<close>, \<open>pay\<close> and
  \<open>fetch\<close>; the clock is read only when the cache has an entry.
\<close>

definition cache_get :: "(string \<rightharpoonup> DNS402Session) \<Rightarrow> string \<Rightarrow> real \<Rightarrow> DNS402Session option" where
  "cache_get c d now =
     (case c d of
        None \<Rightarrow> None
      | Some s \<Rightarrow> if num_gt (expiresAt s) (Fin now) then Some s else None)"

definition getSession :: "World \<Rightarrow> string \<Rightarrow> client_state \<Rightarrow> DNS402Session option \<times> client_state" where
  "getSession w d st =
     (case cache st d of
        None \<Rightarrow> (None, st)
      | Some s \<Rightarrow> (cache_get (cache st) d (clock w (length (trace st))), log_event ClockRead st))"

definition clearCache :: "client_state \<Rightarrow> client_state" where
  "clearCache st = st\<lparr>cache := Map.empty\<rparr>"

text \<open>The three replacements of \<open>resolveRecord\<close> on the domain.\<close>

definition strip_scheme :: "string \<Rightarrow> string" where
  "strip_scheme s =
     (if take 7 s = ''http://'' then drop 7 s
      else if take 8 s = ''https://'' then drop 8 s
      else s)"

definition line_end :: "char \<Rightarrow> bool" where
  "line_end c = (of_char c \<in> {10, 13 :: nat})"

fun strip_path :: "string \<Rightarrow> string" where
  "strip_path [] = []"
| "strip_path (c # cs) =
     (if c = CHR ''/'' \<and> \<not> list_ex line_end cs then [] else c # strip_path cs)"

fun strip_port :: "string \<Rightarrow> string" where
  "strip_port [] = []"
| "strip_port (c # cs) =
     (if c = CHR '':'' \<and> cs \<noteq> [] \<and> list_all is_digit cs then [] else c # strip_port cs)"

definition clean_domain :: "string \<Rightarrow> string" where
  "clean_domain d = strip_port (strip_path (strip_scheme d))"

text \<open>The first TXT record, chunks joined, that decodes.\<close>

fun first_parsed :: "string list list \<Rightarrow> DNS402Record option" where
  "first_parsed [] = None"
| "first_parsed (r # rs) =
     (case parseRecord (concat r) of
        Some parsed \<Rightarrow> Some parsed
      | None \<Rightarrow> first_parsed rs)"

definition resolveRecord :: "World \<Rightarrow> string \<Rightarrow> client_state \<Rightarrow> DNS402Record option \<times> client_state" where
  "resolveRecord w d st =
     (let recordDomain = ''_402.'' @ clean_domain d;
          st' = log_event (ResolveTxtCall recordDomain) st
      in case resolveTxt w (length (trace st)) recordDomain of
           Throws \<Rightarrow> (None, st')
         | Returns records \<Rightarrow> (first_parsed records, st'))"

definition discover ::
  "World \<Rightarrow> DNS402ClientConfig \<Rightarrow> string \<Rightarrow> client_state
     \<Rightarrow> (client_error + DNS402Record option) \<times> client_state" where
  "discover w config d st =
     (case dnsResolver config of
        Some resolver \<Rightarrow>
          (case resolver (length (trace st)) d of
             Throws \<Rightarrow> (Inl CollaboratorFailed, log_event (ResolverCall d) st)
           | Returns t \<Rightarrow>
               if str_falsy t then (Inr None, log_event (ResolverCall d) st)
               else (Inr (parseRecord (the t)), log_event (ResolverCall d) st))
      | None \<Rightarrow>
          (case resolveRecord w d st of (r, st') \<Rightarrow> (Inr r, st')))"

definition pay ::
  "World \<Rightarrow> DNS402ClientConfig \<Rightarrow> string \<Rightarrow> client_state
     \<Rightarrow> (client_error + DNS402Session) \<times> client_state" where
  "pay w config d st =
     (case getSession w d st of
        (Some cached, st1) \<Rightarrow> (Inr cached, st1)
      | (None, st1) \<Rightarrow>
          (case discover w config d st1 of
             (Inl e, st2) \<Rightarrow> (Inl e, st2)
           | (Inr None, st2) \<Rightarrow> (Inl NoRecordFound, st2)
           | (Inr (Some rec), st2) \<Rightarrow>
               (case sendPayment w (length (trace st2)) rec of
                  Throws \<Rightarrow> (Inl CollaboratorFailed, log_event (SendPaymentCall rec) st2)
                | Returns prf \<Rightarrow>
                    let st3 = log_event (SendPaymentCall rec) st2;
                        session = \<lparr>domain = d, token = None, s_proof = prf,
                                   expiresAt =
                                     num_add (Fin (clock w (length (trace st3))))
                                       (num_mul (num_or (ttl rec) (Fin 3600)) (Fin 1000))\<rparr>;
                        st4 = log_event ClockRead st3
                    in (Inr session,
                        if sessionCache config = Some True
                        then st4\<lparr>cache := (cache st4)(d \<mapsto> session)\<rparr> else st4))))"

definition fetchWithProof ::
  "World \<Rightarrow> string \<Rightarrow> (string \<rightharpoonup> string) \<Rightarrow> PaymentProof \<Rightarrow> client_state
     \<Rightarrow> (client_error + HttpResponse) \<times> client_state" where
  "fetchWithProof w url init prf st =
     (let req = \<lparr>req_url = url,
                 req_headers = init(toLowerCase HDR_PROOF \<mapsto> signature prf,
                                    toLowerCase HDR_PAYER \<mapsto> payer prf)\<rparr>
      in case http_fetch w (length (trace st)) req of
           Throws \<Rightarrow> (Inl CollaboratorFailed, log_event (HttpFetch req) st)
         | Returns response \<Rightarrow> (Inr response, log_event (HttpFetch req) st))"

text \<open>\<open>fetch(url, init)\<close>; \<open>init\<close> is given by its headers.\<close>

definition fetch ::
  "World \<Rightarrow> DNS402ClientConfig \<Rightarrow> string \<Rightarrow> (string \<rightharpoonup> string) \<Rightarrow> client_state
     \<Rightarrow> (client_error + HttpResponse) \<times> client_state" where
  "fetch w config url init st =
     (case hostname w url of
        Throws \<Rightarrow> (Inl InvalidURL, st)
      | Returns d \<Rightarrow>
          (case getSession w d st of
             (Some cached, st1) \<Rightarrow> fetchWithProof w url init (s_proof cached) st1
           | (None, st1) \<Rightarrow>
               let req = \<lparr>req_url = url, req_headers = init\<rparr>;
                   st2 = log_event (HttpFetch req) st1
               in
               (case http_fetch w (length (trace st1)) req of
                  Throws \<Rightarrow> (Inl CollaboratorFailed, st2)
                | Returns response \<Rightarrow>
                    if status response \<noteq> 402 then (Inr response, st2)
                    else
                      (case discover w config d st2 of
                         (Inl e, st3) \<Rightarrow> (Inl e, st3)
                       | (Inr None, st3) \<Rightarrow> (Inl NoRecordAfter402, st3)
                       | (Inr (Some rec), st3) \<Rightarrow>
                           if (case autoPay config of None \<Rightarrow> False | Some ap \<Rightarrow> enabled ap)
                           then
                             if num_gt (price rec) (maxAmount (the (autoPay config)))
                             then (Inl ExceedsLimit, st3)
                             else if currency rec \<noteq> ap_currency (the (autoPay config))
                             then (Inl CurrencyMismatch, st3)
                             else
                               (case pay w config d st3 of
                                  (Inl e, st4) \<Rightarrow> (Inl e, st4)
                                | (Inr session, st4) \<Rightarrow>
                                    fetchWithProof w url init (s_proof session) st4)
                           else (Inl PaymentRequired, st3)))))"

text \<open>Counting the effects of a run: payment attempts, and HTTP requests.\<close>

fun is_payment :: "client_event \<Rightarrow> bool" where
  "is_payment (SendPaymentCall r) = True"
| "is_payment _ = False"

definition payments :: "client_event list \<Rightarrow> nat" where
  "payments evs = length (filter is_payment evs)"

fun is_http :: "client_event \<Rightarrow> bool" where
  "is_http (HttpFetch req) = True"
| "is_http _ = False"

definition http_requests :: "client_event list \<Rightarrow> nat" where
  "http_requests evs = length (filter is_http evs)"

text \<open>A server that answers every request with a 402.\<close>

definition always_402 :: "World \<Rightarrow> bool" where
  "always_402 w = (\<forall>n req. \<exists>r. http_fetch w n req = Returns r \<and> status r = 402)"

section \<open>Terms that survive the wire format\<close>

text \<open>
  A value that the record text can carry: not empty, without the separators \<open>;\<close> and
  \<open>=\<close>, and without white space at its ends. \<open>prints_as\<close> says that the text printed
  for a number is such a value and is read back as that number, which is what
  ECMAScript promises of its Number-to-String conversion.
\<close>

definition clean_value :: "string \<Rightarrow> bool" where
  "clean_value s = (s \<noteq> [] \<and> CHR '';'' \<notin> set s \<and> CHR ''='' \<notin> set s \<and> js_trim s = s)"

definition prints_as :: "(number \<Rightarrow> string) \<Rightarrow> (string \<Rightarrow> number) \<Rightarrow> number \<Rightarrow> bool" where
  "prints_as show_num parse n = (clean_value (show_num n) \<and> parse (show_num n) = n)"

text \<open>
  The terms for which encoding and decoding is the identity: version and network are
  the fixed ones, the currency is in upper case (and has none of the two letters whose
  capital lies outside the code units below 256), the model is given, a TTL is not
  zero, and every text is a clean value.
\<close>

definition encodable :: "(number \<Rightarrow> string) \<Rightarrow> DNS402Record \<Rightarrow> bool" where
  "encodable show_num t =
     (version t = ''dns402'' \<and> network t = ''solana''
      \<and> prints_as show_num parseFloat (price t)
      \<and> clean_value (currency t) \<and> toUpperCase (currency t) = currency t
      \<and> \<not> list_ex upper_outside (currency t)
      \<and> clean_value (wallet t)
      \<and> (case ttl t of None \<Rightarrow> True | Some n \<Rightarrow> num_truthy n \<and> prints_as show_num parseInt10 n)
      \<and> (case model t of None \<Rightarrow> False | Some m \<Rightarrow> clean_value m)
      \<and> (case callback t of None \<Rightarrow> True | Some c \<Rightarrow> clean_value c)
      \<and> (case mint t of None \<Rightarrow> True | Some m \<Rightarrow> clean_value m))"

definition kv :: "string \<Rightarrow> string \<Rightarrow> string" where
  "kv k v = k @ CHR ''='' # v"

definition good_part :: "string \<Rightarrow> bool" where
  "good_part p = (p \<noteq> [] \<and> CHR '';'' \<notin> set p \<and> js_trim p = p)"

section \<open>Example data\<close>

text \<open>The numbers of the examples, printed as \<open>Number.prototype.toString\<close> prints them.\<close>

definition show_ex :: "number \<Rightarrow> string" where
  "show_ex n =
     (if n = Fin (1 / 100) then ''0.01''
      else if n = Fin 1800 then ''1800''
      else if n = Fin 60 then ''60''
      else if n = Fin 100 then ''100''
      else ''0'')"

definition terms_ex :: DNS402Record where
  "terms_ex =
     \<lparr>price = Fin (1 / 100), currency = ''USDC'', wallet = ''W1'', ttl = Some (Fin 1800),
      model = Some ''per-request'', callback = None, mint = None,
      version = ''dns402'', network = ''solana''\<rparr>"

text \<open>
  Transactions: one that moves 0.01 USDC to \<open>W1\<close>, one that moves nothing, one that
  takes the token balance of \<open>W1\<close> from 0.1 to 0.1099, one that takes it from 0.1 to
  0.11, one that moves 0.01 SOL (ten million lamports) to \<open>W1\<close>, and the first one
  marked failed.
\<close>

definition token_tx :: "real \<Rightarrow> real \<Rightarrow> TransactionResponse" where
  "token_tx before after =
     \<lparr>meta = Some \<lparr>err = False, preBalances = [], postBalances = [],
         preTokenBalances =
           Some [\<lparr>accountIndex = 1, tb_mint = ''USDC-mint'', owner = Some ''W1'',
                  uiAmount = Some before\<rparr>],
         postTokenBalances =
           Some [\<lparr>accountIndex = 1, tb_mint = ''USDC-mint'', owner = Some ''W1'',
                  uiAmount = Some after\<rparr>]\<rparr>,
      accountKeys = Returns [''P1'', ''W1'']\<rparr>"

definition tx_usdc :: TransactionResponse where
  "tx_usdc = token_tx 5 (5 + 1 / 100)"

definition tx_idle :: TransactionResponse where
  "tx_idle = token_tx 5 5"

definition tx_short :: TransactionResponse where
  "tx_short = token_tx (1 / 10) (1099 / 10000)"

definition tx_full :: TransactionResponse where
  "tx_full = token_tx (1 / 10) (11 / 100)"

definition tx_sol :: TransactionResponse where
  "tx_sol =
     \<lparr>meta = Some \<lparr>err = False, preBalances = [2000000000, 1000000000],
         postBalances = [1989995000, 1010000000],
         preTokenBalances = None, postTokenBalances = None\<rparr>,
      accountKeys = Returns [''P1'', ''W1'']\<rparr>"

definition tx_failed :: TransactionResponse where
  "tx_failed = tx_usdc\<lparr>meta := Some ((the (meta tx_usdc))\<lparr>err := True\<rparr>)\<rparr>"

text \<open>
  A node that knows these transactions, with a library that takes every text but the
  empty one for a key.
\<close>

definition chain_ex :: Chain where
  "chain_ex =
     \<lparr>getTransaction =
        (\<lambda>s. if s = ''sig1'' then Returns (Some tx_usdc)
             else if s = ''sig0'' then Returns (Some tx_idle)
             else if s = ''sig2'' then Returns (Some tx_short)
             else if s = ''sig3'' then Returns (Some tx_full)
             else if s = ''sig4'' then Returns (Some tx_sol)
             else if s = ''sig5'' then Returns (Some tx_failed)
             else Returns None),
      is_pubkey = (\<lambda>k. k \<noteq> [])\<rparr>"

definition config_ex :: "(PaymentProof \<Rightarrow> callback_result) option \<Rightarrow> DNS402ServerConfig" where
  "config_ex cb =
     \<lparr>cfg_wallet = ''W1'', cfg_price = Fin (1 / 100), cfg_currency = ''USDC'',
      sessionTTL = Some (Fin 60), onPayment = cb\<rparr>"

definition request_ex :: "string option \<Rightarrow> string option \<Rightarrow> HttpRequest" where
  "request_ex prf pyr =
     \<lparr>req_url = ''/api/premium/data'',
      req_headers =
        (\<lambda>h. if h = ''x-dns402-proof'' then prf
             else if h = ''x-dns402-payer'' then pyr else None)\<rparr>"

definition session_ex :: PaymentSession where
  "session_ex = \<lparr>s_payer = ''P1'', s_signature = ''sig1'', s_expiresAt = Fin 60000\<rparr>"

text \<open>
  A world whose server always answers 402 and whose ledger always pays, and a client
  whose resolver answers its first two calls with cheap terms and the later ones with
  expensive terms.
\<close>

definition proof_ex :: PaymentProof where
  "proof_ex = \<lparr>signature = ''sig1'', payer = ''P1'', timestamp = Fin 1000\<rparr>"

definition world_402 :: World where
  "world_402 =
     \<lparr>clock = (\<lambda>n. 1000),
      http_fetch = (\<lambda>n req. Returns (send402 show_ex (config_ex None))),
      resolveTxt = (\<lambda>n name. Throws),
      sendPayment = (\<lambda>n r. Returns proof_ex),
      hostname = (\<lambda>u. Returns ''api.example.com'')\<rparr>"

definition resolver_ex :: "nat \<Rightarrow> string \<Rightarrow> string option outcome" where
  "resolver_ex n d =
     Returns (Some (if n \<le> 1 then ''v=dns402;p=0.01;c=USDC;n=solana;w=W1;t=1800''
                    else ''v=dns402;p=100;c=USDC;n=solana;w=W2''))"

definition autopay_ex :: AutoPay where
  "autopay_ex = \<lparr>enabled = True, maxAmount = Fin (5 / 100), ap_currency = ''USDC''\<rparr>"

definition client_ex :: "AutoPay option \<Rightarrow> DNS402ClientConfig" where
  "client_ex ap = \<lparr>autoPay = ap, sessionCache = Some True, dnsResolver = Some resolver_ex\<rparr>"

text \<open>A client without the session cache, whose resolver always answers the cheap terms.\<close>

definition client_nocache :: DNS402ClientConfig where
  "client_nocache =
     \<lparr>autoPay = None, sessionCache = None,
      dnsResolver = Some (\<lambda>n d. Returns (Some ''v=dns402;p=0.01;c=USDC;n=solana;w=W1;t=1800''))\<rparr>"

definition state0 :: client_state where
  "state0 = \<lparr>cache = Map.empty, trace = []\<rparr>"

definition url_ex :: string where
  "url_ex = ''https://api.example.com/premium/data''"

definition expensive_ex :: DNS402Record where
  "expensive_ex =
     \<lparr>price = Fin 100, currency = ''USDC'', wallet = ''W2'', ttl = None,
      model = Some ''per-request'', callback = None, mint = None,
      version = ''dns402'', network = ''solana''\<rparr>"

section \<open>Properties of the rounding\<close>

text \<open>
  The binary exponent brackets its argument, rounding is monotone and odd, it keeps
  the integers below \<open>2 ^ 53\<close>, and it sends no number above \<open>pow2 (- 1075)\<close> to zero.
\<close>

lemma bit_length_bounds: "0 < n \<Longrightarrow> 2 ^ (bit_length n - 1) \<le> n \<and> n < 2 ^ bit_length n"
proof (induction n rule: bit_length.induct)
  case (1 n)
  show ?case
  proof (cases "n div 2 = 0")
    case True
    with 1(2) have "n = 1" by (simp add: div_eq_0_iff) 
    then show ?thesis by (simp add: bit_length.simps)
  next
    case False
    then have ih: "2 ^ (bit_length (n div 2) - 1) \<le> n div 2 \<and> n div 2 < 2 ^ bit_length (n div 2)"
      using 1 by simp
    have pos: "bit_length (n div 2) > 0" using False by (simp add: bit_length.simps)
    have bl: "bit_length n = Suc (bit_length (n div 2))" using 1(2) by (simp add: bit_length.simps)
    from ih have "2 * 2 ^ (bit_length (n div 2) - 1) \<le> n" by linarith
    moreover have "2 * 2 ^ (bit_length (n div 2) - 1) = (2::nat) ^ bit_length (n div 2)"
      using pos by (cases "bit_length (n div 2)") simp_all
    moreover from ih have "n < 2 * 2 ^ bit_length (n div 2)" by linarith
    ultimately show ?thesis by (simp add: bl)
  qed
qed

lemma pow2_powi: "pow2 e = 2 powi e"
  by (simp add: pow2_def power_int_def inverse_eq_divide power_one_over)

lemma pow2_pos [simp]: "0 < pow2 e"
  by (simp add: pow2_powi)

lemma pow2_add: "pow2 (a + b) = pow2 a * pow2 b"
  by (simp add: pow2_powi power_int_add)

lemma pow2_mono: "a \<le> b \<Longrightarrow> pow2 a \<le> pow2 b"
  by (simp add: pow2_powi power_int_increasing)

lemma pow2_less: "pow2 a < pow2 b \<Longrightarrow> a < b"
  by (metis pow2_mono not_less)

lemma pow2_nat: "pow2 (int n) = 2 ^ n"
  by (simp add: pow2_def)

lemma pow2_neg_nat: "pow2 (- int n) = 1 / 2 ^ n"
  by (simp add: pow2_def)

lemma expo_bounds:
  assumes "0 < x"
  shows "pow2 (expo x) \<le> x \<and> x < pow2 (expo x + 1)"
proof (cases "1 \<le> x")
  case True
  define n where "n = nat \<lfloor>x\<rfloor>"
  have n: "0 < n" "real n \<le> x" "x < real n + 1"
    using True by (simp_all add: n_def) (linarith+)?
  from bit_length_bounds [OF n(1)]
  have b: "(2::nat) ^ (bit_length n - 1) \<le> n" "n < 2 ^ bit_length n" by simp_all
  have k: "0 < bit_length n" using n(1) by (simp add: bit_length.simps)
  have e: "expo x = int (bit_length n - 1)" using True k by (simp add: expo_def n_def)
  have "pow2 (expo x) = 2 ^ (bit_length n - 1)" by (simp add: e pow2_nat)
  also have "\<dots> \<le> real n" using b(1) by (metis of_nat_le_iff of_nat_numeral of_nat_power)
  finally have 1: "pow2 (expo x) \<le> x" using n(2) by simp
  have "expo x + 1 = int (bit_length n)" using k by (simp add: e)
  then have "pow2 (expo x + 1) = 2 ^ bit_length n" by (simp add: pow2_nat)
  moreover have "real n + 1 \<le> 2 ^ bit_length n"
    using b(2) by (metis Suc_leI of_nat_Suc of_nat_le_iff of_nat_numeral of_nat_power add.commute)
  ultimately have "x < pow2 (expo x + 1)" using n(3) by simp
  with 1 show ?thesis by simp
next
  case False
  define y where "y = 1 / x"
  define n where "n = nat (\<lceil>y\<rceil> - 1)"
  have y: "1 < y" using False assms by (simp add: y_def)
  then have c: "2 \<le> \<lceil>y\<rceil>" by linarith
  have n: "0 < n" "real n < y" "y \<le> real n + 1"
    using c by (simp_all add: n_def) (linarith+)?
  from bit_length_bounds [OF n(1)]
  have b: "(2::nat) ^ (bit_length n - 1) \<le> n" "n < 2 ^ bit_length n" by simp_all
  have k: "0 < bit_length n" using n(1) by (simp add: bit_length.simps)
  have e: "expo x = - int (bit_length n)" using False by (simp add: expo_def n_def y_def)
  have "real n + 1 \<le> 2 ^ bit_length n"
    using b(2) by (metis Suc_leI of_nat_Suc of_nat_le_iff of_nat_numeral of_nat_power add.commute)
  with n(3) have "y \<le> 2 ^ bit_length n" by linarith
  then have "1 / 2 ^ bit_length n \<le> x"
    using assms by (simp add: y_def field_simps)
  moreover have "pow2 (expo x) = 1 / 2 ^ bit_length n"
    by (simp only: e pow2_neg_nat)
  ultimately have 1: "pow2 (expo x) \<le> x" by simp
  have "(2::real) ^ (bit_length n - 1) \<le> real n"
    using b(1) by (metis of_nat_le_iff of_nat_numeral of_nat_power)
  with n(2) have "2 ^ (bit_length n - 1) < y" by linarith
  then have "x < 1 / 2 ^ (bit_length n - 1)"
    using assms by (simp add: y_def field_simps)
  moreover have "pow2 (expo x + 1) = 1 / 2 ^ (bit_length n - 1)"
  proof -
    have "expo x + 1 = - int (bit_length n - 1)" using k by (simp add: e)
    then show ?thesis by (simp only: pow2_neg_nat)
  qed
  ultimately show ?thesis using 1 by simp
qed

lemma round_even_of_int [simp]: "round_even (of_int k) = k"
  by (simp add: round_even_def)

lemma round_even_floor: "\<lfloor>r\<rfloor> \<le> round_even r \<and> round_even r \<le> \<lfloor>r\<rfloor> + 1"
  by (simp add: round_even_def)

lemma round_even_mono: "a \<le> b \<Longrightarrow> round_even a \<le> round_even b"
proof -
  assume ab: "a \<le> b"
  then have "\<lfloor>a\<rfloor> \<le> \<lfloor>b\<rfloor>" by (rule floor_mono)
  then consider "\<lfloor>a\<rfloor> = \<lfloor>b\<rfloor>" | "\<lfloor>a\<rfloor> + 1 \<le> \<lfloor>b\<rfloor>" by linarith
  then show ?thesis
  proof cases
    case 1
    with ab have "a - of_int \<lfloor>a\<rfloor> \<le> b - of_int \<lfloor>b\<rfloor>" by simp
    with 1 show ?thesis by (auto simp: round_even_def)
  next
    case 2
    with round_even_floor [of a] round_even_floor [of b] show ?thesis by linarith
  qed
qed

lemma round_even_minus: "round_even (- r) = - round_even r"
proof (cases "r = of_int \<lfloor>r\<rfloor>")
  case True
  then obtain k where "r = of_int k" ..
  then have "- r = of_int (- k)" by simp
  then show ?thesis unfolding \<open>r = of_int k\<close> by (metis round_even_of_int)
next
  case False
  define k where "k = \<lfloor>r\<rfloor>"
  have lo: "of_int k \<le> r" and hi: "r < of_int k + 1" unfolding k_def by linarith+
  from False lo have d: "0 < r - of_int k" unfolding k_def by linarith
  have c: "of_int (- k - 1) = - of_int k - (1::real)" by simp
  have f: "\<lfloor>- r\<rfloor> = - k - 1"
  proof (rule floor_unique)
    show "of_int (- k - 1) \<le> - r" unfolding c using hi by linarith
    show "- r < of_int (- k - 1) + 1" unfolding c using d by linarith
  qed
  have "round_even (- r) = - round_even r"
    unfolding round_even_def f k_def [symmetric] c
    using d hi by auto
  then show ?thesis .
qed

lemma round_even_ge1: "1 / 2 < r \<Longrightarrow> 1 \<le> round_even r"
proof -
  assume r: "1 / 2 < r"
  then have "0 \<le> \<lfloor>r\<rfloor>" by linarith
  then consider "\<lfloor>r\<rfloor> = 0" | "1 \<le> \<lfloor>r\<rfloor>" by linarith
  then show ?thesis
  proof cases
    case 1
    with r show ?thesis by (simp add: round_even_def)
  next
    case 2
    with round_even_floor [of r] show ?thesis by linarith
  qed
qed

lemma ulp_pos [simp]: "0 < ulp x"
  by (simp add: ulp_def)

lemma ulp_nonneg [simp]: "0 \<le> ulp x"
  using ulp_pos [of x] by linarith

lemma ulp_neq0 [simp]: "ulp x \<noteq> 0"
  using ulp_pos [of x] by linarith

lemma round_even_0 [simp]: "round_even 0 = 0"
  using round_even_of_int [of 0] by simp

lemma ulp_minus [simp]: "ulp (- x) = ulp x"
  by (simp add: ulp_def)

lemma nearest_minus: "nearest (- x) = - nearest x"
  by (simp add: nearest_def round_even_minus)

lemma nearest_zero [simp]: "nearest 0 = 0"
  by (simp add: nearest_def)

lemma nearest_nonneg: "0 \<le> x \<Longrightarrow> 0 \<le> nearest x"
proof -
  assume "0 \<le> x"
  then have "0 \<le> x / ulp x" by simp
  then have "round_even 0 \<le> round_even (x / ulp x)" by (rule round_even_mono)
  then have "0 \<le> round_even (x / ulp x)" using round_even_of_int [of 0] by simp
  then show ?thesis by (simp add: nearest_def)
qed

lemma ulp_upper: assumes "0 < x" shows "x < pow2 53 * ulp x"
proof -
  have "x < pow2 (expo x + 1)" using expo_bounds [OF assms] by simp
  also have "\<dots> \<le> pow2 (53 + (max (expo x) (- 1022) - 52))" by (rule pow2_mono) simp
  also have "\<dots> = pow2 53 * ulp x" using assms by (simp only: pow2_add ulp_def abs_of_pos)
  finally show ?thesis .
qed

lemma ulp_lower: assumes "0 < x" "- 1022 \<le> expo x" shows "pow2 52 * ulp x \<le> x"
proof -
  have "pow2 52 * ulp x = pow2 (52 + (max (expo x) (- 1022) - 52))"
    using assms by (simp only: pow2_add ulp_def abs_of_pos)
  also have "\<dots> = pow2 (expo x)" using assms(2) by (simp add: max_def)
  also have "\<dots> \<le> x" using expo_bounds [OF assms(1)] by simp
  finally show ?thesis .
qed

lemma pow2_52: "pow2 52 = of_int (2 ^ 52)" and pow2_53: "pow2 53 = of_int (2 ^ 53)"
  by (simp_all add: pow2_def)

lemma nearest_upper: assumes "0 < x" shows "nearest x \<le> pow2 53 * ulp x"
proof -
  have "x / ulp x \<le> pow2 53" using ulp_upper [OF assms] by (simp add: field_simps)
  then have "round_even (x / ulp x) \<le> round_even (pow2 53)" by (rule round_even_mono)
  then have "round_even (x / ulp x) \<le> 2 ^ 53" unfolding pow2_53 round_even_of_int .
  then have "real_of_int (round_even (x / ulp x)) \<le> pow2 53"
    unfolding pow2_53 by (simp only: of_int_le_iff)
  then show ?thesis by (simp add: nearest_def)
qed

lemma nearest_lower: assumes "0 < x" "- 1022 \<le> expo x" shows "pow2 52 * ulp x \<le> nearest x"
proof -
  have "pow2 52 \<le> x / ulp x" using ulp_lower [OF assms] by (simp add: field_simps)
  then have "round_even (pow2 52) \<le> round_even (x / ulp x)" by (rule round_even_mono)
  then have "2 ^ 52 \<le> round_even (x / ulp x)" unfolding pow2_52 round_even_of_int .
  then have "pow2 52 \<le> real_of_int (round_even (x / ulp x))"
    unfolding pow2_52 by (simp only: of_int_le_iff)
  then show ?thesis by (simp add: nearest_def)
qed

lemma ulp_min: "pow2 (- 1074) \<le> ulp x"
  unfolding ulp_def by (rule pow2_mono) simp

lemma nearest_pos: assumes "pow2 (- 1075) < x" shows "pow2 (- 1074) \<le> nearest x"
proof -
  have x: "0 < x" using assms pow2_pos [of "- 1075"] by linarith
  show ?thesis
  proof (cases "- 1022 \<le> expo x")
    case True
    have "pow2 (- 1074) \<le> ulp x" by (rule ulp_min)
    also have "\<dots> \<le> pow2 52 * ulp x" by (simp add: pow2_def)
    also have "\<dots> \<le> nearest x" using x True by (rule nearest_lower)
    finally show ?thesis .
  next
    case False
    then have u: "ulp x = pow2 (- 1074)" using x by (simp add: ulp_def max_def)
    have "pow2 (- 1075) = (1 / 2) * pow2 (- 1074)" by (simp add: pow2_def)
    with assms have "1 / 2 < x / ulp x" by (simp add: u field_simps)
    then have "1 \<le> round_even (x / ulp x)" by (rule round_even_ge1)
    then have "1 \<le> real_of_int (round_even (x / ulp x))" by simp
    then have "1 * ulp x \<le> real_of_int (round_even (x / ulp x)) * ulp x"
      by (rule mult_right_mono) simp
    then show ?thesis by (simp add: nearest_def u)
  qed
qed

lemma expo_mono: assumes "0 < x" "x \<le> y" shows "expo x \<le> expo y"
proof -
  have "pow2 (expo x) \<le> x" using expo_bounds [OF assms(1)] by simp
  also have "\<dots> \<le> y" by fact
  also have "\<dots> < pow2 (expo y + 1)" using expo_bounds [of y] assms by simp
  finally have "expo x < expo y + 1" by (rule pow2_less)
  then show ?thesis by simp
qed

lemma nearest_mono_pos: assumes "0 < x" "x \<le> y" shows "nearest x \<le> nearest y"
proof -
  have y: "0 < y" using assms by simp
  have e: "expo x \<le> expo y" using assms by (rule expo_mono)
  let ?kx = "max (expo x) (- 1022) - 52" and ?ky = "max (expo y) (- 1022) - 52"
  have ux: "ulp x = pow2 ?kx" and uy: "ulp y = pow2 ?ky" using assms y by (simp_all add: ulp_def)
  from e consider "?kx = ?ky" | "?kx + 1 \<le> ?ky" by linarith
  then show ?thesis
  proof cases
    case 1
    then have u: "ulp x = ulp y" by (simp add: ux uy)
    have "x / ulp y \<le> y / ulp y" using assms(2) by (intro divide_right_mono) simp_all
    then have "round_even (x / ulp y) \<le> round_even (y / ulp y)" by (rule round_even_mono)
    then have "real_of_int (round_even (x / ulp y)) * ulp y \<le> real_of_int (round_even (y / ulp y)) * ulp y"
      by (intro mult_right_mono) simp_all
    then show ?thesis by (simp add: nearest_def u)
  next
    case 2
    then have ey: "- 1022 \<le> expo y" by linarith
    have "nearest x \<le> pow2 53 * ulp x" using assms(1) by (rule nearest_upper)
    also have "\<dots> = pow2 (52 + (?kx + 1))"
    proof -
      have "pow2 (52 + (?kx + 1)) = pow2 (53 + ?kx)" by (simp add: algebra_simps)
      then show ?thesis by (simp only: ux pow2_add)
    qed
    also have "\<dots> \<le> pow2 (52 + ?ky)" using 2 by (intro pow2_mono) simp
    also have "\<dots> = pow2 52 * ulp y" by (simp only: uy pow2_add)
    also have "\<dots> \<le> nearest y" using y ey by (rule nearest_lower)
    finally show ?thesis .
  qed
qed

lemma nearest_mono: assumes "x \<le> y" shows "nearest x \<le> nearest y"
proof -
  consider "0 < x" | "x \<le> 0" "0 \<le> y" | "y < 0" by linarith
  then show ?thesis
  proof cases
    case 1
    then show ?thesis using assms by (rule nearest_mono_pos)
  next
    case 2
    have "nearest x = - nearest (- x)" using nearest_minus [of x] by simp
    moreover have "0 \<le> nearest (- x)" using 2(1) by (intro nearest_nonneg) simp
    moreover have "0 \<le> nearest y" using 2(2) by (rule nearest_nonneg)
    ultimately show ?thesis by linarith
  next
    case 3
    then have "nearest (- y) \<le> nearest (- x)" using assms by (intro nearest_mono_pos) simp_all
    then show ?thesis by (simp add: nearest_minus)
  qed
qed

lemma nearest_int_pos: assumes "0 < n" "n < 2 ^ 53" shows "nearest (of_int n) = of_int n"
proof -
  let ?x = "real_of_int n"
  have x: "0 < ?x" "1 \<le> ?x" using assms(1) by simp_all
  have "pow2 0 \<le> ?x" using x(2) by (simp add: pow2_def)
  also have "\<dots> < pow2 (expo ?x + 1)" using expo_bounds [OF x(1)] by simp
  finally have lo: "0 \<le> expo ?x" using pow2_less by fastforce
  have "pow2 (expo ?x) \<le> ?x" using expo_bounds [OF x(1)] by simp
  also have "\<dots> < pow2 53" using assms(2) unfolding pow2_53 by (simp only: of_int_less_iff)
  finally have hi: "expo ?x \<le> 52" using pow2_less by fastforce
  define j where "j = nat (52 - expo ?x)"
  have "max (expo ?x) (- 1022) - 52 = - int j" using lo hi by (simp add: j_def)
  then have u: "ulp ?x = 1 / 2 ^ j" using x(1) by (simp only: ulp_def abs_of_pos pow2_neg_nat)
  have "?x / ulp ?x = of_int (n * 2 ^ j)" by (simp add: u)
  then have "round_even (?x / ulp ?x) = n * 2 ^ j" by (simp only: round_even_of_int)
  then show ?thesis by (simp add: nearest_def u)
qed

lemma nearest_int: assumes "\<bar>n\<bar> < 2 ^ 53" shows "nearest (of_int n) = of_int n"
proof -
  consider "n = 0" | "0 < n" | "n < 0" by linarith
  then show ?thesis
  proof cases
    case 1
    then show ?thesis by simp
  next
    case 2
    with assms show ?thesis by (intro nearest_int_pos) simp_all
  next
    case 3
    with assms have "nearest (of_int (- n)) = of_int (- n)" by (intro nearest_int_pos) simp_all
    then show ?thesis using nearest_minus [of "of_int n"] by simp
  qed
qed

lemma nearest_numeral [simp]:
  "(numeral k :: int) < 2 ^ 53 \<Longrightarrow> nearest (numeral k) = numeral k"
  using nearest_int [of "numeral k"] by simp

lemma nearest_one [simp]: "nearest 1 = 1"
  using nearest_int [of 1] by simp

lemma nearest_pow52: "nearest (2 ^ 52) = 2 ^ 52"
  using nearest_int [of "2 ^ 52"] by simp

lemma nearest_small: assumes "\<bar>x\<bar> \<le> 2 ^ 52" shows "\<bar>nearest x\<bar> \<le> 2 ^ 52"
proof -
  have "nearest x \<le> nearest (2 ^ 52)" using assms by (intro nearest_mono) simp
  moreover have "nearest (- (2 ^ 52)) \<le> nearest x" using assms by (intro nearest_mono) simp
  ultimately show ?thesis by (simp add: nearest_minus nearest_pow52)
qed

lemma pow2_1024_big: "2 ^ 52 < pow2 1024"
proof -
  have "(2::real) ^ 52 < 2 ^ 53" by simp
  also have "\<dots> = pow2 53" by (simp add: pow2_def)
  also have "\<dots> \<le> pow2 1024" by (rule pow2_mono) simp
  finally show ?thesis .
qed

lemma rnd_small: assumes "\<bar>x\<bar> \<le> 2 ^ 52" shows "rnd x = Fin (nearest x)"
proof -
  from nearest_small [OF assms] pow2_1024_big
  have "\<not> pow2 1024 \<le> nearest x" "\<not> nearest x \<le> - pow2 1024" by linarith+
  then show ?thesis by (simp add: rnd_def)
qed

lemma rnd_zero [simp]: "rnd 0 = Fin 0"
  by (simp add: rnd_small)

lemma rnd_one [simp]: "rnd 1 = Fin 1"
  by (simp add: rnd_small)

lemma rnd_int: assumes "\<bar>n\<bar> \<le> 2 ^ 52" shows "rnd (of_int n) = Fin (of_int n)"
proof -
  have "(2::int) ^ 52 < 2 ^ 53" by simp
  with assms have "\<bar>n\<bar> < 2 ^ 53" by linarith
  then have n: "nearest (of_int n) = of_int n" by (rule nearest_int)
  from assms have "real_of_int \<bar>n\<bar> \<le> real_of_int (2 ^ 52)" by (simp only: of_int_le_iff)
  then have "\<bar>real_of_int n\<bar> \<le> 2 ^ 52" by simp
  then show ?thesis using n by (simp only: rnd_small)
qed

lemma rnd_numeral [simp]: "(numeral k :: int) \<le> 2 ^ 52 \<Longrightarrow> rnd (numeral k) = Fin (numeral k)"
  using rnd_int [of "numeral k"] by (simp only: abs_numeral of_int_numeral)

lemma rnd_mono: assumes "x \<le> y" shows "val_ge (rnd y) (rnd x)"
  using nearest_mono [OF assms] pow2_pos [of 1024] by (auto simp: rnd_def)

lemma val_gt_ge_trans: "val_gt a b \<Longrightarrow> val_ge b c \<Longrightarrow> \<not> val_gt c a"
  by (cases a; cases b; cases c) auto

lemma num_lt_num_gt_trans:
  "num_gt e (Fin t) \<Longrightarrow> s \<le> t \<Longrightarrow> \<not> num_lt e (Fin s)"
  using val_gt_ge_trans [of "dbl e" "rnd t" "rnd s"] rnd_mono [of s t]
  by (simp add: num_gt_def num_lt_def)

lemma num_lt_not_ge: "num_lt a b \<Longrightarrow> \<not> num_ge a b"
  by (cases "dbl a"; cases "dbl b") (auto simp: num_lt_def num_gt_def num_ge_def)

lemma num_ge_not_gt: "num_ge a b \<Longrightarrow> \<not> num_gt b a"
  by (cases "dbl a"; cases "dbl b") (auto simp: num_gt_def num_ge_def)

lemmas nearest_eval = nearest_def ulp_def expo_def round_even_def pow2_def bit_length.simps

lemma rnd_099: "rnd (99 / 100) = Fin (4458563631096791 / 4503599627370496)"
  by (simp add: rnd_small nearest_eval)

lemma nearest_grid: assumes "0 < nearest q" shows "pow2 (- 1074) \<le> nearest q"
proof -
  have "\<not> ulp q < 0" using ulp_pos [of q] by linarith
  with assms have "0 < round_even (q / ulp q)"
    by (simp add: nearest_def zero_less_mult_iff)
  then have "1 \<le> real_of_int (round_even (q / ulp q))" by simp
  then have "1 * ulp q \<le> real_of_int (round_even (q / ulp q)) * ulp q"
    by (rule mult_right_mono) simp
  then have "ulp q \<le> nearest q" by (simp add: nearest_def)
  with ulp_min [of q] show ?thesis by linarith
qed

lemma rnd_pos:
  assumes "pow2 (- 1075) < y"
  shows "rnd y = PosInf \<or> (\<exists>z. rnd y = Fin z \<and> pow2 (- 1075) < z)"
proof -
  have "pow2 (- 1074) \<le> nearest y" using assms by (rule nearest_pos)
  moreover have "pow2 (- 1075) < pow2 (- 1074)" by (simp add: pow2_def)
  ultimately have "pow2 (- 1075) < nearest y" by linarith
  moreover from this have "\<not> nearest y \<le> - pow2 1024"
    using pow2_pos [of 1024] pow2_pos [of "- 1075"] by linarith
  ultimately show ?thesis by (simp add: rnd_def)
qed

lemma dbl_pos:
  assumes "t = PosInf \<or> (\<exists>z. t = Fin z \<and> pow2 (- 1075) < z)"
  shows "dbl t = PosInf \<or> (\<exists>z. dbl t = Fin z \<and> pow2 (- 1075) < z)"
proof -
  from assms consider "t = PosInf" | z where "t = Fin z" "pow2 (- 1075) < z" by blast
  then show ?thesis
  proof cases
    case 1
    then show ?thesis by simp
  next
    case 2
    from rnd_pos [OF 2(2)] show ?thesis by (simp add: 2(1))
  qed
qed

lemma num_ge_pos:
  assumes ge: "num_ge r (num_mul amount (Fin (99 / 100)))" and pos: "num_gt amount (Fin 0)"
  shows "num_gt r (Fin 0)"
proof -
  let ?c = "4458563631096791 / 4503599627370496 :: real"
  have half: "1 / 2 < ?c" by simp
  have m: "val_mul (dbl amount) (dbl (Fin (99 / 100))) = PosInf
        \<or> (\<exists>z. val_mul (dbl amount) (dbl (Fin (99 / 100))) = Fin z \<and> pow2 (- 1075) < z)"
  proof (cases "dbl amount")
    case NaN
    with pos show ?thesis by (simp add: num_gt_def)
  next
    case PosInf
    then show ?thesis by (simp add: rnd_099)
  next
    case NegInf
    with pos show ?thesis by (simp add: num_gt_def)
  next
    case (Fin a)
    with pos have a: "0 < a" by (simp add: num_gt_def)
    from Fin obtain q where q: "amount = Fin q" by (cases amount) simp_all
    with Fin have "rnd q = Fin a" by simp
    then have "a = nearest q" by (simp add: rnd_def split: if_splits)
    with a have "pow2 (- 1074) \<le> a" using nearest_grid [of q] by simp
    then have "pow2 (- 1074) * (1 / 2) < a * ?c"
      using half a by (intro mult_le_less_imp_less) simp_all
    moreover have "pow2 (- 1075) = pow2 (- 1074) * (1 / 2)" by (simp add: pow2_def)
    ultimately have "pow2 (- 1075) < a * ?c" by simp
    moreover have "val_mul (dbl amount) (dbl (Fin (99 / 100))) = Fin (a * ?c)"
      by (simp only: Fin dbl.simps rnd_099 val_mul.simps)
    ultimately show ?thesis by blast
  qed
  have "dbl (num_mul amount (Fin (99 / 100))) = PosInf
        \<or> (\<exists>z. dbl (num_mul amount (Fin (99 / 100))) = Fin z \<and> pow2 (- 1075) < z)"
    unfolding num_mul_def by (intro dbl_pos m)
  moreover have "0 < z" if "pow2 (- 1075) < z" for z
    using that pow2_pos [of "- 1075"] by linarith
  ultimately show ?thesis
    using ge by (cases "dbl r") (auto simp: num_ge_def num_gt_def)
qed

lemmas num_eval =
  num_truthy_def num_gt_def num_ge_def num_lt_def num_add_def num_sub_def num_mul_def
  num_div_def num_or_def

section \<open>Properties of the codec\<close>

subsection \<open>Splitting and trimming\<close>

lemma js_split_not_Nil: "js_split sep s \<noteq> []"
  by (induction s) (auto split: list.splits)

lemma js_split_no_sep: "sep \<notin> set p \<Longrightarrow> js_split sep p = [p]"
  by (induction p) auto

lemma js_split_append_sep: "js_split sep (a @ sep # b) = js_split sep a @ js_split sep b"
proof (induction a)
  case Nil
  then show ?case by simp
next
  case (Cons c a)
  then show ?case
    using js_split_not_Nil [of sep a] by (cases "js_split sep a") auto
qed

lemma js_split_first: "sep \<notin> set p \<Longrightarrow> js_split sep (p @ sep # s) = p # js_split sep s"
  by (simp add: js_split_append_sep js_split_no_sep)

lemma js_trim_id:
  assumes "s = [] \<or> (\<not> is_ws (hd s) \<and> \<not> is_ws (last s))"
  shows "js_trim s = s"
proof -
  have "dropWhile is_ws s = s"
    using assms by (auto simp: dropWhile_eq_self_iff)
  moreover have "dropWhile is_ws (rev s) = rev s"
    using assms by (auto simp: dropWhile_eq_self_iff hd_rev)
  ultimately show ?thesis by (simp add: js_trim_def)
qed

subsection \<open>The loop over the parts\<close>

lemma record_parts_append: "record_parts (a @ CHR '';'' # b) = record_parts a @ record_parts b"
  by (simp add: record_parts_def js_split_append_sep)

lemma record_parts_single:
  "CHR '';'' \<notin> set p \<Longrightarrow> record_parts p = (if js_trim p = [] then [] else [js_trim p])"
  by (simp add: record_parts_def js_split_no_sep)

lemma parse_data_append:
  "parse_data (a @ CHR '';'' # b) = fold store_pair (record_parts b) (parse_data a)"
  by (simp add: parse_data_def record_parts_append)

lemma store_pair_two:
  assumes "CHR ''='' \<notin> set k" "CHR ''='' \<notin> set v"
  shows "store_pair (k @ CHR ''='' # v @ CHR ''='' # rest) data =
         (if k \<noteq> [] \<and> v \<noteq> [] then data(js_trim k \<mapsto> js_trim v) else data)"
  using assms by (simp add: store_pair_def js_split_first)

lemma store_pair_one:
  assumes "CHR ''='' \<notin> set k" "CHR ''='' \<notin> set v"
  shows "store_pair (k @ CHR ''='' # v) data =
         (if k \<noteq> [] \<and> v \<noteq> [] then data(js_trim k \<mapsto> js_trim v) else data)"
  using assms by (simp add: store_pair_def js_split_first js_split_no_sep)

lemma store_pair_ignored: "pair_ignored part \<Longrightarrow> store_pair part data = data"
  by (auto simp: pair_ignored_def store_pair_def split: list.splits)

lemma store_pair_key:
  "store_pair part data k = (if pair_key part = Some k then store_pair part data k else data k)"
  by (auto simp: pair_key_def store_pair_def split: list.splits)

lemma fold_store_pair_missing:
  "k \<notin> set (List.map_filter pair_key ps) \<Longrightarrow> fold store_pair ps data k = data k"
proof (induction ps arbitrary: data)
  case Nil
  then show ?case by simp
next
  case (Cons p ps)
  from Cons.prems have 1: "pair_key p \<noteq> Some k" and 2: "k \<notin> set (List.map_filter pair_key ps)"
    by (auto simp: List.map_filter_simps split: option.splits)
  have "fold store_pair ps (store_pair p data) k = store_pair p data k"
    using 2 by (rule Cons.IH)
  also have "\<dots> = data k"
    using 1 store_pair_key [of p data k] by simp
  finally show ?case by simp
qed

lemma parse_data_missing: "k \<notin> set (stored_keys txt) \<Longrightarrow> parse_data txt k = None"
  by (simp add: parse_data_def stored_keys_def fold_store_pair_missing)

lemma parse_data_ignored:
  assumes "CHR '';'' \<notin> set p" "pair_ignored (js_trim p)"
  shows "parse_data (a @ CHR '';'' # p @ CHR '';'' # b) = parse_data (a @ CHR '';'' # b)"
proof -
  have "parse_data (a @ CHR '';'' # p @ CHR '';'' # b) =
        parse_data ((a @ CHR '';'' # p) @ CHR '';'' # b)"
    by simp
  also have "\<dots> = fold store_pair (record_parts b) (parse_data (a @ CHR '';'' # p))"
    by (rule parse_data_append)
  also have "parse_data (a @ CHR '';'' # p) = parse_data a"
    using assms by (simp add: parse_data_append record_parts_single store_pair_ignored)
  finally show ?thesis by (simp add: parse_data_append)
qed

lemma parseRecord_eq_None:
  "parseRecord txt = None \<longleftrightarrow>
     (parse_data txt ''v'' \<noteq> Some ''dns402'' \<or> str_falsy (parse_data txt ''p'')
      \<or> str_falsy (parse_data txt ''c'') \<or> str_falsy (parse_data txt ''n'')
      \<or> str_falsy (parse_data txt ''w''))"
  by (simp add: parseRecord_def Let_def)

lemmas codec_eval =
  parseRecord_def parse_data_def record_parts_def store_pair_def js_trim_def is_ws_def
  str_falsy_def generateRecord_def opt_part_def stored_keys_def pair_key_def pair_ignored_def
  List.map_filter_simps required_keys_def

subsection \<open>C3: when decoding returns null\<close>

text \<open>
  C3, as the code has it. \<open>parseRecord\<close> is a total function (nothing in it throws) and
  returns null exactly when the version is not the literal \<open>dns402\<close> or one of
  \<open>p\<close>, \<open>c\<close>, \<open>n\<close>, \<open>w\<close> is missing or empty; in particular when one of the five required
  keys is stored by no pair of the text. The price is not validated: whenever a record
  is returned its price is \<open>parseFloat\<close> of the \<open>p\<close> field, whatever that is.
\<close>

theorem parseRecord_null_cases:
  "(k \<in> set required_keys \<and> k \<notin> set (stored_keys txt) \<longrightarrow> parseRecord txt = None)
   \<and> (parse_data txt ''v'' \<noteq> Some ''dns402'' \<longrightarrow> parseRecord txt = None)
   \<and> (parseRecord txt = None \<longleftrightarrow>
        (parse_data txt ''v'' \<noteq> Some ''dns402'' \<or> str_falsy (parse_data txt ''p'')
         \<or> str_falsy (parse_data txt ''c'') \<or> str_falsy (parse_data txt ''n'')
         \<or> str_falsy (parse_data txt ''w'')))
   \<and> (\<forall>r. parseRecord txt = Some r \<longrightarrow> price r = parseFloat (the (parse_data txt ''p'')))"
proof -
  have "parseRecord txt = None" if "k \<in> set required_keys" "k \<notin> set (stored_keys txt)"
  proof -
    from that(2) have "parse_data txt k = None" by (rule parse_data_missing)
    with that(1) show ?thesis
      by (auto simp: required_keys_def parseRecord_eq_None str_falsy_def)
  qed
  moreover have "\<forall>r. parseRecord txt = Some r \<longrightarrow> price r = parseFloat (the (parse_data txt ''p''))"
    by (auto simp: parseRecord_def Let_def split: if_splits)
  ultimately show ?thesis
    using parseRecord_eq_None [of "txt"] by blast
qed

theorem parseRecord_null_cases_witness:
  "''p'' \<in> set required_keys
   \<and> ''p'' \<notin> set (stored_keys ''v=dns402;c=USDC;n=solana;w=W1'')
   \<and> parseRecord ''v=dns402;c=USDC;n=solana;w=W1'' = None"
proof -
  have 1: "''p'' \<in> set required_keys"
    by (simp add: required_keys_def)
  have 2: "''p'' \<notin> set (stored_keys ''v=dns402;c=USDC;n=solana;w=W1'')"
    by (simp add: codec_eval)
  from 1 2 parseRecord_null_cases [of "''p''" "''v=dns402;c=USDC;n=solana;w=W1''"]
  have "parseRecord ''v=dns402;c=USDC;n=solana;w=W1'' = None"
    by blast
  with 1 2 show ?thesis by blast
qed

text \<open>
  The claim as the spec states it fails: a price that is not a number, and a negative
  one, are both decoded.
\<close>

theorem parseRecord_non_numeric_price_counterexample:
  "parseRecord ''v=dns402;p=abc;c=USDC;n=solana;w=W1'' =
     Some \<lparr>price = NaN, currency = ''USDC'', wallet = ''W1'', ttl = None,
           model = Some ''per-request'', callback = None, mint = None,
           version = ''dns402'', network = ''solana''\<rparr>
   \<and> parseRecord ''v=dns402;p=-5;c=USDC;n=solana;w=W1'' =
     Some \<lparr>price = Fin (- 5), currency = ''USDC'', wallet = ''W1'', ttl = None,
           model = Some ''per-request'', callback = None, mint = None,
           version = ''dns402'', network = ''solana''\<rparr>"
  by code_simp

subsection \<open>C10: what the loop keeps of a pair\<close>



subsection \<open>C8: encoding and decoding again\<close>

lemma last_dropWhile: "dropWhile P xs \<noteq> [] \<Longrightarrow> last (dropWhile P xs) = last xs"
  by (induction xs) (auto split: if_splits)

lemma js_trim_ends:
  "js_trim s = [] \<or> (\<not> is_ws (hd (js_trim s)) \<and> \<not> is_ws (last (js_trim s)))"
proof (cases "js_trim s = []")
  case True
  then show ?thesis by simp
next
  case False
  define t where "t = dropWhile is_ws s"
  define u where "u = dropWhile is_ws (rev t)"
  have js: "js_trim s = rev u" by (simp add: js_trim_def t_def u_def)
  with False have u: "u \<noteq> []" by simp
  then have t: "t \<noteq> []" by (auto simp: u_def)
  have "\<not> is_ws (hd u)" using u unfolding u_def by (rule hd_dropWhile)
  moreover have "last u = last (rev t)" using u unfolding u_def by (rule last_dropWhile)
  moreover have "\<not> is_ws (hd t)" using t unfolding t_def by (rule hd_dropWhile)
  ultimately show ?thesis using u t by (simp add: js hd_rev last_rev)
qed

lemma clean_value_ends: "clean_value s \<Longrightarrow> \<not> is_ws (hd s) \<and> \<not> is_ws (last s)"
  using js_trim_ends [of s] by (auto simp: clean_value_def)

lemma part_trim:
  assumes "clean_value k" "clean_value v"
  shows "js_trim (k @ CHR ''='' # v) = k @ CHR ''='' # v"
proof (rule js_trim_id)
  from assms have "k \<noteq> []" "v \<noteq> []" by (simp_all add: clean_value_def)
  then show "k @ CHR ''='' # v = [] \<or>
        \<not> is_ws (hd (k @ CHR ''='' # v)) \<and> \<not> is_ws (last (k @ CHR ''='' # v))"
    using clean_value_ends [OF assms(1)] clean_value_ends [OF assms(2)] by simp
qed

lemma good_kv: "clean_value k \<Longrightarrow> clean_value v \<Longrightarrow> good_part (kv k v)"
  using part_trim [of k v] by (simp add: good_part_def kv_def clean_value_def)

lemma store_kv: "clean_value k \<Longrightarrow> clean_value v \<Longrightarrow> store_pair (kv k v) data = data(k \<mapsto> v)"
  by (simp add: kv_def store_pair_one clean_value_def)

lemma record_parts_join:
  "\<forall>p \<in> set ps. good_part p \<Longrightarrow> record_parts (join '';'' ps) = ps"
proof (induction "'';''" ps rule: join.induct)
  case 1
  then show ?case by (simp add: record_parts_def js_trim_def)
next
  case (2 p)
  then show ?case by (simp add: record_parts_single good_part_def)
next
  case (3 p q ps)
  have "record_parts (p @ CHR '';'' # join '';'' (q # ps)) =
        record_parts p @ record_parts (join '';'' (q # ps))"
    by (rule record_parts_append)
  with 3 show ?case by (simp add: record_parts_single good_part_def)
qed

lemma clean_keys:
  "clean_value ''v''" "clean_value ''p''" "clean_value ''c''" "clean_value ''n''"
  "clean_value ''w''" "clean_value ''t''" "clean_value ''m''" "clean_value ''cb''"
  "clean_value ''mint''" "clean_value ''dns402''" "clean_value ''solana''"
  by (simp_all add: clean_value_def js_trim_def is_ws_def)

lemma generateRecord_kv:
  "generateRecord show_num t =
     join '';''
       ([kv ''v'' ''dns402'', kv ''p'' (show_num (price t)), kv ''c'' (currency t),
         kv ''n'' ''solana'', kv ''w'' (wallet t)]
        @ (case ttl t of None \<Rightarrow> []
           | Some n \<Rightarrow> if num_truthy n then [kv ''t'' (show_num n)] else [])
        @ (if str_falsy (model t) then [] else [kv ''m'' (the (model t))])
        @ (if str_falsy (callback t) then [] else [kv ''cb'' (the (callback t))])
        @ (if str_falsy (mint t) then [] else [kv ''mint'' (the (mint t))]))"
  by (simp add: generateRecord_def kv_def opt_part_def split: option.splits)

lemma lower_solana: "toLowerCase ''solana'' = ''solana''"
  by code_simp

text \<open>
  C8, as the code has it. Decoding the encoding of a record gives the record back when
  the record is \<open>encodable\<close>: version \<open>dns402\<close> and network \<open>solana\<close>, a currency that
  \<open>toUpperCase\<close> leaves as it is (no small letter, be it \<open>a\<close> to \<open>z\<close> or an accented
  one), a model, a non-zero TTL if there is one, numbers that the engine prints and
  reads back, and texts that are not empty, have no white space at their ends and
  contain neither \<open>;\<close> nor \<open>=\<close>.
\<close>

theorem parseRecord_generateRecord:
  assumes "encodable show_num t"
  shows "parseRecord (generateRecord show_num t) = Some t"
proof -
  let ?ps = "[kv ''v'' ''dns402'', kv ''p'' (show_num (price t)), kv ''c'' (currency t),
         kv ''n'' ''solana'', kv ''w'' (wallet t)]
        @ (case ttl t of None \<Rightarrow> []
           | Some n \<Rightarrow> if num_truthy n then [kv ''t'' (show_num n)] else [])
        @ (if str_falsy (model t) then [] else [kv ''m'' (the (model t))])
        @ (if str_falsy (callback t) then [] else [kv ''cb'' (the (callback t))])
        @ (if str_falsy (mint t) then [] else [kv ''mint'' (the (mint t))])"
  from assms have p: "clean_value (show_num (price t))" "parseFloat (show_num (price t)) = price t"
    and c: "clean_value (currency t)" "toUpperCase (currency t) = currency t"
    and w: "clean_value (wallet t)"
    and vn: "version t = ''dns402''" "network t = ''solana''"
    by (simp_all add: encodable_def prints_as_def)
  from assms have tt: "ttl t = None \<or> (\<exists>n. ttl t = Some n \<and> num_truthy n
        \<and> clean_value (show_num n) \<and> parseInt10 (show_num n) = n)"
    by (auto simp: encodable_def prints_as_def split: option.splits)
  from assms obtain m where m: "model t = Some m" "clean_value m"
    by (auto simp: encodable_def split: option.splits)
  from assms have cb: "callback t = None \<or> (\<exists>u. callback t = Some u \<and> clean_value u)"
    by (auto simp: encodable_def split: option.splits)
  from assms have mi: "mint t = None \<or> (\<exists>u. mint t = Some u \<and> clean_value u)"
    by (auto simp: encodable_def split: option.splits)
  have ne: "\<And>u. clean_value u \<Longrightarrow> u \<noteq> []" by (simp add: clean_value_def)
  have good: "\<forall>p \<in> set ?ps. good_part p"
    using p c w tt m cb mi
    by (auto simp: good_kv clean_keys str_falsy_def dest: ne)
  have data: "parse_data (generateRecord show_num t) = fold store_pair ?ps Map.empty"
    unfolding generateRecord_kv parse_data_def record_parts_join [OF good] ..
  have ne': "show_num (price t) \<noteq> []" "currency t \<noteq> []" "wallet t \<noteq> []" "m \<noteq> []"
    using p c w m by (simp_all add: ne)
  show ?thesis
    unfolding parseRecord_def data Let_def
    using p c w tt m cb mi vn ne'
    by (elim disjE exE conjE)
       (simp_all add: store_kv clean_keys str_falsy_def lower_solana ne)
qed

lemma parseFloat_001: "parseFloat ''0.01'' = Fin (1 / 100)"
  by (simp add: parseFloat_def is_ws_def is_digit_def digits_val_def digit_val_def
        exponent_part_def pow10_def Let_def)

lemma parseInt_1800: "parseInt10 ''1800'' = Fin 1800"
  by (simp add: parseInt10_def is_ws_def is_digit_def digits_val_def digit_val_def Let_def)

lemma clean_ex:
  "clean_value ''0.01''" "clean_value ''1800''" "clean_value ''USDC''" "clean_value ''W1''"
  "clean_value ''per-request''"
  by (simp_all add: clean_value_def js_trim_def is_ws_def)

lemma upper_USDC: "toUpperCase ''USDC'' = ''USDC''"
  by code_simp

lemma terms_ex_encodable: "encodable show_ex terms_ex"
  by (simp add: encodable_def terms_ex_def show_ex_def prints_as_def clean_ex
        parseFloat_001 parseInt_1800 upper_USDC upper_outside_def num_truthy_def)

lemma upper_accent: "toUpperCase (''USD'' @ [CHR 0xE9]) = ''USD'' @ [CHR 0xC9]"
  by code_simp

theorem parseRecord_generateRecord_witness:
  "encodable show_ex terms_ex
   \<and> generateRecord show_ex terms_ex = ''v=dns402;p=0.01;c=USDC;n=solana;w=W1;t=1800;m=per-request''
   \<and> parseRecord (generateRecord show_ex terms_ex) = Some terms_ex
   \<and> \<not> encodable show_ex (terms_ex\<lparr>currency := ''USD'' @ [CHR 0xE9]\<rparr>)"
proof -
  have "generateRecord show_ex terms_ex = ''v=dns402;p=0.01;c=USDC;n=solana;w=W1;t=1800;m=per-request''"
    by (simp add: generateRecord_def terms_ex_def show_ex_def opt_part_def str_falsy_def
          num_truthy_def)
  moreover have "\<not> encodable show_ex (terms_ex\<lparr>currency := ''USD'' @ [CHR 0xE9]\<rparr>)"
    using upper_accent by (simp add: encodable_def)
  ultimately show ?thesis
    using terms_ex_encodable parseRecord_generateRecord [OF terms_ex_encodable] by blast
qed

text \<open>
  The claim as the spec states it fails: a callback with a \<open>;\<close> or with a \<open>=\<close> comes
  back cut, and a record without a model comes back with the default model.
\<close>

theorem parseRecord_generateRecord_counterexample:
  "parseRecord (generateRecord show_ex (terms_ex\<lparr>callback := Some ''https://example.com/hook;v2''\<rparr>))
     = Some (terms_ex\<lparr>callback := Some ''https://example.com/hook''\<rparr>)
   \<and> terms_ex\<lparr>callback := Some ''https://example.com/hook''\<rparr>
       \<noteq> terms_ex\<lparr>callback := Some ''https://example.com/hook;v2''\<rparr>
   \<and> parseRecord (generateRecord show_ex (terms_ex\<lparr>callback := Some ''https://example.com/hook?id=7''\<rparr>))
     = Some (terms_ex\<lparr>callback := Some ''https://example.com/hook?id''\<rparr>)
   \<and> terms_ex\<lparr>callback := Some ''https://example.com/hook?id''\<rparr>
       \<noteq> terms_ex\<lparr>callback := Some ''https://example.com/hook?id=7''\<rparr>
   \<and> parseRecord (generateRecord show_ex (terms_ex\<lparr>model := None\<rparr>)) = Some terms_ex
   \<and> terms_ex \<noteq> terms_ex\<lparr>model := None\<rparr>"
  by (simp add: codec_eval terms_ex_def show_ex_def parseFloat_001 parseInt_1800 upper_USDC
        lower_solana num_truthy_def)


section \<open>Properties of the payment verification\<close>

lemma sol_loop_ex:
  "sol_loop keys i pre post recipient amount =
     list_ex (\<lambda>r. num_ge r (num_mul amount (Fin (99 / 100))))
       (map (\<lambda>j. sol_received pre post (i + j))
          (filter (\<lambda>j. keys ! j = recipient) [0..<length keys]))"
proof (induction keys arbitrary: i)
  case Nil
  then show ?case by simp
next
  case (Cons key keys)
  have upt: "[0..<length (key # keys)] = 0 # map Suc [0..<length keys]"
    by (simp add: upt_conv_Cons map_Suc_upt del: upt_Suc)
  show ?case
    unfolding upt by (simp add: Cons.IH filter_map o_def list_ex_iff)
qed

lemma token_loop_ex:
  "token_loop posts pres recipient amount =
     list_ex (\<lambda>r. num_ge r (num_mul amount (Fin (99 / 100))))
       (map (token_received pres)
          (filter (\<lambda>post. owner post = Some recipient) posts))"
  by (induction posts) auto

lemma verifyPayment_iff:
  "verifyPayment chain sig recipient amount ccy \<longleftrightarrow>
     (\<exists>tx. readable chain sig recipient ccy tx
        \<and> list_ex (\<lambda>r. num_ge r (num_mul amount (Fin (99 / 100))))
             (received_amounts tx ccy recipient))"
  using sol_loop_ex [of _ 0]
  by (auto simp: verifyPayment_def verifyPayment_try_def readable_def received_amounts_def
        token_loop_ex split: outcome.splits option.splits)

lemma verifyPayment_token:
  "ccy \<noteq> ''SOL'' \<Longrightarrow> ccy' \<noteq> ''SOL'' \<Longrightarrow>
     verifyPayment chain sig recipient amount ccy' = verifyPayment chain sig recipient amount ccy"
  by (simp add: verifyPayment_def verifyPayment_try_def split: outcome.splits option.splits)


text \<open>
  The amounts of the examples, as the code computes them. The threshold for a price of
  0.01 is a double just below 0.0099; the difference of the doubles 0.1099 and 0.1 is
  a double further below 0.0099, the difference of 0.11 and 0.1 is a double just above
  0.01, and the difference of 5.01 and 5 a double just below 0.01.
\<close>

lemma threshold_ex:
  "num_mul (Fin (1 / 100)) (Fin (99 / 100)) = Fin (5706961447803893 / 576460752303423488)"
  "num_mul (Fin 1) (Fin (99 / 100)) = Fin (4458563631096791 / 4503599627370496)"
  "num_mul (Fin 0) (Fin (99 / 100)) = Fin 0"
  by (simp_all add: num_mul_def rnd_small nearest_eval)

lemma amount_ex:
  "amount_or_zero None = Fin 0"
  "amount_or_zero (Some \<lparr>accountIndex = i, tb_mint = m, owner = w, uiAmount = Some a\<rparr>) =
     (if num_truthy (Fin a) then Fin a else Fin 0)"
  by (simp_all add: amount_or_zero_def num_or_def)

lemma truthy_ex:
  "num_truthy (Fin 5)" "num_truthy (Fin (501 / 100))" "num_truthy (Fin (1 / 10))"
  "num_truthy (Fin (1099 / 10000))" "num_truthy (Fin (11 / 100))"
  by (simp_all add: num_truthy_def rnd_small nearest_eval)

lemma received_ex:
  "num_sub (Fin (501 / 100)) (Fin 5) = Fin (5629499534213 / 562949953421312)"
  "num_sub (Fin 5) (Fin 5) = Fin 0"
  "num_sub (Fin (1099 / 10000)) (Fin (1 / 10)) = Fin (356685090487743 / 36028797018963968)"
  "num_sub (Fin (11 / 100)) (Fin (1 / 10)) = Fin (720575940379279 / 72057594037927936)"
  "num_div (num_sub (Fin 1010000000) (Fin 1000000000)) (Fin 1000000000)
     = Fin (5764607523034235 / 576460752303423488)"
  "num_div (num_sub (Fin 1989995000) (Fin 2000000000)) (Fin 1000000000)
     = Fin (- (720936228349469 / 72057594037927936))"
  by (simp_all add: num_sub_def num_div_def rnd_small nearest_eval)

lemmas verify_eval =
  chain_ex_def token_tx_def tx_usdc_def tx_idle_def tx_short_def tx_full_def tx_sol_def
  tx_failed_def readable_def received_amounts_def or_empty_def token_received_def amount_ex
  truthy_ex balance_increased_def sol_received_def nth_opt_def LAMPORTS_PER_SOL_def

lemma received_amounts_ex:
  "received_amounts tx_usdc ''USDC'' ''W1'' = [Fin (5629499534213 / 562949953421312)]"
  "received_amounts tx_usdc ''USDC'' ''W2'' = []"
  "received_amounts tx_idle ''USDC'' ''W1'' = [Fin 0]"
  "received_amounts tx_short ''USDC'' ''W1'' = [Fin (356685090487743 / 36028797018963968)]"
  "received_amounts tx_full ''USDC'' ''W1'' = [Fin (720575940379279 / 72057594037927936)]"
  "received_amounts tx_sol ''SOL'' ''W1'' = [Fin (5764607523034235 / 576460752303423488)]"
  by (simp_all add: verify_eval received_ex)

lemma compare_ex:
  "num_ge (Fin (5629499534213 / 562949953421312)) (Fin (5706961447803893 / 576460752303423488))"
  "num_lt (Fin (5629499534213 / 562949953421312)) (Fin (4458563631096791 / 4503599627370496))"
  "num_lt (Fin (356685090487743 / 36028797018963968)) (Fin (5706961447803893 / 576460752303423488))"
  "num_ge (Fin (720575940379279 / 72057594037927936)) (Fin (5706961447803893 / 576460752303423488))"
  "num_ge (Fin (5764607523034235 / 576460752303423488)) (Fin (5706961447803893 / 576460752303423488))"
  "num_ge (Fin 0) (Fin 0)" "\<not> num_gt (Fin 0) (Fin 0)" "num_gt (Fin (1 / 100)) (Fin 0)"
  by (simp_all add: num_ge_def num_lt_def num_gt_def rnd_small nearest_eval)

lemma readable_ex:
  "readable chain_ex ''sig1'' ''W1'' ''USDC'' tx_usdc"
  "readable chain_ex ''sig3'' ''W1'' ''USDC'' tx_full"
  "readable chain_ex ''sig4'' ''W1'' ''SOL'' tx_sol"
  "getTransaction chain_ex ''sig1'' = Returns (Some tx_usdc)"
  "getTransaction chain_ex ''sig2'' = Returns (Some tx_short)"
  "getTransaction chain_ex ''sig5'' = Returns (Some tx_failed)"
  "getTransaction chain_ex ''sig9'' = Returns None"
  by (simp_all add: chain_ex_def readable_def token_tx_def tx_usdc_def tx_full_def tx_sol_def)



section \<open>Properties of the server gate\<close>

lemma lower_HDR_PROOF: "toLowerCase HDR_PROOF = ''x-dns402-proof''"
  by code_simp

lemma lower_HDR_PAYER: "toLowerCase HDR_PAYER = ''x-dns402-payer''"
  by code_simp

lemmas header_names = lower_HDR_PROOF lower_HDR_PAYER

text \<open>
  C1, as the code has it. For a request with no live session: when the proof header or
  the payer header is absent (or empty) the gate answers 402, verifies nothing and
  leaves the sessions as they are; when both are present the verifier is called once,
  with the proof, the configured wallet, price and currency, and if it fails the gate
  answers 403, stores no session and does not call \<open>onPayment\<close>.
\<close>

theorem gate_challenge_or_verify:
  assumes "no_live_session ss now req"
  shows "(str_falsy (req_headers req (toLowerCase HDR_PROOF))
            \<or> str_falsy (req_headers req (toLowerCase HDR_PAYER)) \<longrightarrow>
          outcome (dns402 show_num chain config now ss req) = Responded (send402 show_num config)
          \<and> status (send402 show_num config) = 402
          \<and> verify_calls (dns402 show_num chain config now ss req) = []
          \<and> sessions_after (dns402 show_num chain config now ss req) = ss)
       \<and> (\<not> str_falsy (req_headers req (toLowerCase HDR_PROOF))
            \<and> \<not> str_falsy (req_headers req (toLowerCase HDR_PAYER)) \<longrightarrow>
          verify_calls (dns402 show_num chain config now ss req) =
            [(the (req_headers req (toLowerCase HDR_PROOF)), cfg_wallet config,
              cfg_price config, cfg_currency config)]
          \<and> (\<not> verifyPayment chain (the (req_headers req (toLowerCase HDR_PROOF)))
                   (cfg_wallet config) (cfg_price config) (cfg_currency config) \<longrightarrow>
               outcome (dns402 show_num chain config now ss req) = Responded send403
               \<and> status send403 = 403
               \<and> sessions_after (dns402 show_num chain config now ss req) = ss
               \<and> onPayment_calls (dns402 show_num chain config now ss req) = []))"
  using assms
  by (auto simp: dns402_def no_live_session_def Let_def send402_def send403_def
      split: option.splits)

lemmas gate_eval =
  request_ex_def header_names str_falsy_def no_live_session_def session_get_def config_ex_def

theorem gate_challenge_or_verify_witness:
  "outcome (dns402 show_ex chain_ex (config_ex None) (\<lambda>i. 1000) Map.empty (request_ex None None))
     = Responded (send402 show_ex (config_ex None))
   \<and> outcome (dns402 show_ex chain_ex (config_ex None) (\<lambda>i. 1000) Map.empty
        (request_ex (Some ''sig9'') (Some ''P1''))) = Responded send403
   \<and> verify_calls (dns402 show_ex chain_ex (config_ex None) (\<lambda>i. 1000) Map.empty
        (request_ex (Some ''sig9'') (Some ''P1''))) = [(''sig9'', ''W1'', Fin (1 / 100), ''USDC'')]"
proof -
  have n1: "no_live_session Map.empty (\<lambda>i. 1000) (request_ex None None)"
    and n2: "no_live_session Map.empty (\<lambda>i. 1000) (request_ex (Some ''sig9'') (Some ''P1''))"
    by (simp_all add: gate_eval)
  have h1: "str_falsy (req_headers (request_ex None None) (toLowerCase HDR_PROOF))"
    by (simp add: gate_eval)
  have h2: "\<not> str_falsy (req_headers (request_ex (Some ''sig9'') (Some ''P1'')) (toLowerCase HDR_PROOF))
      \<and> \<not> str_falsy (req_headers (request_ex (Some ''sig9'') (Some ''P1'')) (toLowerCase HDR_PAYER))"
    by (simp add: gate_eval)
  have v: "the (req_headers (request_ex (Some ''sig9'') (Some ''P1'')) (toLowerCase HDR_PROOF)) = ''sig9''"
    "cfg_wallet (config_ex None) = ''W1''" "cfg_price (config_ex None) = Fin (1 / 100)"
    "cfg_currency (config_ex None) = ''USDC''"
    by (simp_all add: gate_eval)
  have f: "\<not> verifyPayment chain_ex ''sig9'' ''W1'' (Fin (1 / 100)) ''USDC''"
    by (simp add: verifyPayment_def verifyPayment_try_def chain_ex_def)
  from h1 gate_challenge_or_verify [OF n1, of show_ex chain_ex "config_ex None"]
  have 1: "outcome (dns402 show_ex chain_ex (config_ex None) (\<lambda>i. 1000) Map.empty (request_ex None None))
     = Responded (send402 show_ex (config_ex None))"
    by blast
  from h2 f gate_challenge_or_verify [OF n2, of show_ex chain_ex "config_ex None"]
  have 2: "outcome (dns402 show_ex chain_ex (config_ex None) (\<lambda>i. 1000) Map.empty
        (request_ex (Some ''sig9'') (Some ''P1''))) = Responded send403
   \<and> verify_calls (dns402 show_ex chain_ex (config_ex None) (\<lambda>i. 1000) Map.empty
        (request_ex (Some ''sig9'') (Some ''P1''))) = [(''sig9'', ''W1'', Fin (1 / 100), ''USDC'')]"
    unfolding v by blast
  from 1 2 show ?thesis by blast
qed

text \<open>
  The claim as the spec states it fails: a request with a proof header and no payer
  header has no live session, and it is answered 402 without the verifier being called.
\<close>

theorem gate_proof_without_payer_counterexample:
  "no_live_session Map.empty (\<lambda>i. 1000) (request_ex (Some ''sig1'') None)
   \<and> req_headers (request_ex (Some ''sig1'') None) (toLowerCase HDR_PROOF) = Some ''sig1''
   \<and> outcome (dns402 show_ex chain_ex (config_ex None) (\<lambda>i. 1000) Map.empty
        (request_ex (Some ''sig1'') None)) = Responded (send402 show_ex (config_ex None))
   \<and> status (send402 show_ex (config_ex None)) = 402
   \<and> verify_calls (dns402 show_ex chain_ex (config_ex None) (\<lambda>i. 1000) Map.empty
        (request_ex (Some ''sig1'') None)) = []"
  by (simp add: gate_eval dns402_def send402_def)


text \<open>
  C7, as the code has it. For a request with no live session whose proof passes
  verification, the session is stored and then \<open>onPayment\<close>, if configured, is called
  once with the proof and the payer, and awaited; the request is forwarded when there
  is no callback or when the callback completes.
\<close>

theorem gate_onPayment_after_verification:
  assumes "no_live_session ss now req"
    and "req_headers req (toLowerCase HDR_PROOF) = Some prf" "prf \<noteq> []"
    and "req_headers req (toLowerCase HDR_PAYER) = Some pyr" "pyr \<noteq> []"
    and "verifyPayment chain prf (cfg_wallet config) (cfg_price config) (cfg_currency config)"
  shows "(\<exists>s. sessions_after (dns402 show_num chain config now ss req) pyr = Some s
              \<and> s_payer s = pyr \<and> s_signature s = prf)
       \<and> (onPayment config = None \<longrightarrow>
            outcome (dns402 show_num chain config now ss req) = Forwarded
            \<and> onPayment_calls (dns402 show_num chain config now ss req) = [])
       \<and> (\<forall>cb. onPayment config = Some cb \<longrightarrow>
            (\<exists>pp. onPayment_calls (dns402 show_num chain config now ss req) = [pp]
                 \<and> signature pp = prf \<and> payer pp = pyr
                 \<and> (cb pp = Resolved \<longrightarrow>
                      outcome (dns402 show_num chain config now ss req) = Forwarded)))"
  using assms
  by (auto simp: dns402_def no_live_session_def Let_def str_falsy_def
      split: option.splits)

lemma verify_ex: "verifyPayment chain_ex ''sig1'' ''W1'' (Fin (1 / 100)) ''USDC''"
  unfolding verifyPayment_iff
  by (intro exI [of _ tx_usdc])
     (simp add: readable_ex received_amounts_ex threshold_ex compare_ex)

theorem gate_onPayment_after_verification_witness:
  "outcome (dns402 show_ex chain_ex (config_ex (Some (\<lambda>p. Resolved))) (\<lambda>i. 1000) Map.empty
      (request_ex (Some ''sig1'') (Some ''P1''))) = Forwarded
   \<and> outcome (dns402 show_ex chain_ex (config_ex None) (\<lambda>i. 1000) Map.empty
      (request_ex (Some ''sig1'') (Some ''P1''))) = Forwarded"
proof -
  let ?req = "request_ex (Some ''sig1'') (Some ''P1'')"
  have n: "no_live_session Map.empty (\<lambda>i. 1000) ?req"
    and p: "req_headers ?req (toLowerCase HDR_PROOF) = Some ''sig1''" "''sig1'' \<noteq> []"
    and y: "req_headers ?req (toLowerCase HDR_PAYER) = Some ''P1''" "''P1'' \<noteq> []"
    by (simp_all add: gate_eval)
  have v: "verifyPayment chain_ex ''sig1'' (cfg_wallet (config_ex cb)) (cfg_price (config_ex cb))
             (cfg_currency (config_ex cb))" for cb
    using verify_ex by (simp add: config_ex_def)
  have c1: "onPayment (config_ex (Some (\<lambda>p. Resolved))) = Some (\<lambda>p. Resolved)"
    and c2: "onPayment (config_ex None) = None"
    by (simp_all add: config_ex_def)
  from gate_onPayment_after_verification
         [OF n p y v [of "Some (\<lambda>p. Resolved)"], where show_num = show_ex] c1
  have 1: "outcome (dns402 show_ex chain_ex (config_ex (Some (\<lambda>p. Resolved))) (\<lambda>i. 1000) Map.empty
      ?req) = Forwarded"
    by auto
  from gate_onPayment_after_verification [OF n p y v [of None], where show_num = show_ex] c2
  have 2: "outcome (dns402 show_ex chain_ex (config_ex None) (\<lambda>i. 1000) Map.empty ?req) = Forwarded"
    by blast
  from 1 2 show ?thesis by blast
qed

text \<open>
  The claim as the spec states it fails: the callback is awaited, and when it fails the
  request is not forwarded, although the proof was verified and the session stored.
\<close>

theorem gate_onPayment_failure_counterexample:
  "verifyPayment chain_ex ''sig1'' ''W1'' (Fin (1 / 100)) ''USDC''
   \<and> outcome (dns402 show_ex chain_ex (config_ex (Some (\<lambda>p. Failed))) (\<lambda>i. 1000) Map.empty
        (request_ex (Some ''sig1'') (Some ''P1''))) = Rejected
   \<and> sessions_after (dns402 show_ex chain_ex (config_ex (Some (\<lambda>p. Failed))) (\<lambda>i. 1000) Map.empty
        (request_ex (Some ''sig1'') (Some ''P1''))) ''P1''
       = Some \<lparr>s_payer = ''P1'', s_signature = ''sig1'', s_expiresAt = Fin 61000\<rparr>"
  using verify_ex by (simp add: gate_eval dns402_def num_eval)

subsection \<open>C6: reads of the session stores\<close>

lemma sweeps_keep:
  assumes "ss k = Some s" "num_gt (s_expiresAt s) (Fin t)" "\<forall>w \<in> set sweeps. w \<le> t"
  shows "fold sweep sweeps ss k = Some s"
  using assms
proof (induction sweeps arbitrary: ss)
  case Nil
  then show ?case by simp
next
  case (Cons w sweeps)
  from Cons.prems have "sweep w ss k = Some s"
    by (simp add: sweep_def num_lt_num_gt_trans)
  with Cons show ?case by simp
qed

lemma sweeps_entry:
  "fold sweep sweeps ss k = None \<or> fold sweep sweeps ss k = ss k"
proof (induction sweeps arbitrary: ss)
  case Nil
  then show ?case by simp
next
  case (Cons w sweeps)
  have "sweep w ss k = None \<or> sweep w ss k = ss k"
    by (simp add: sweep_def split: option.splits)
  moreover have "fold sweep sweeps ss' k = None" if "ss' k = None" for ss'
    using that by (induction sweeps arbitrary: ss') (simp_all add: sweep_def)
  ultimately show ?case using Cons.IH [of "sweep w ss"] by auto
qed




section \<open>Properties of the client\<close>

lemma payments_simps:
  "payments [] = 0"
  "payments (e # es) = (if is_payment e then 1 else 0) + payments es"
  "payments (a @ b) = payments a + payments b"
  by (simp_all add: payments_def)

lemma http_requests_simps:
  "http_requests [] = 0"
  "http_requests (e # es) = (if is_http e then 1 else 0) + http_requests es"
  "http_requests (a @ b) = http_requests a + http_requests b"
  by (simp_all add: http_requests_def)

lemmas count_simps = payments_simps http_requests_simps

lemma getSession_trace:
  "getSession w d st = (r, st') \<Longrightarrow>
     cache st' = cache st \<and> (trace st' = trace st \<or> trace st' = trace st @ [ClockRead])"
  by (auto simp: getSession_def log_event_def split: option.splits)

lemma discover_trace:
  "discover w config d st = (r, st') \<Longrightarrow>
     cache st' = cache st \<and> (\<exists>e. trace st' = trace st @ [e] \<and> \<not> is_payment e \<and> \<not> is_http e)"
  by (auto simp: discover_def resolveRecord_def log_event_def Let_def
      split: option.splits outcome.splits if_splits)

lemma pay_trace:
  assumes "pay w config d st = (r, st')"
  shows "\<exists>evs. trace st' = trace st @ evs \<and> payments evs \<le> 1 \<and> http_requests evs = 0"
proof -
  obtain g st1 where g: "getSession w d st = (g, st1)" by (cases "getSession w d st")
  obtain e1 where e1: "trace st1 = trace st @ e1" "payments e1 = 0" "http_requests e1 = 0"
    using getSession_trace [OF g] by (auto simp: count_simps)
  show ?thesis
  proof (cases g)
    case (Some c)
    with assms g e1 show ?thesis by (auto simp: pay_def)
  next
    case None
    obtain dr st2 where dr: "discover w config d st1 = (dr, st2)"
      by (cases "discover w config d st1")
    obtain e2 where e2: "trace st2 = trace st1 @ [e2]" "\<not> is_payment e2" "\<not> is_http e2"
      using discover_trace [OF dr] by auto
    from assms g None dr e1 e2 show ?thesis
      by (auto simp: pay_def log_event_def count_simps Let_def
          split: sum.splits option.splits outcome.splits if_splits)
  qed
qed

lemma fetchWithProof_trace:
  assumes "fetchWithProof w url init prf st = (r, st')"
  shows "\<exists>req. trace st' = trace st @ [HttpFetch req]
            \<and> req_headers req (toLowerCase HDR_PROOF) = Some (signature prf)
            \<and> req_headers req (toLowerCase HDR_PAYER) = Some (payer prf)
            \<and> (\<forall>resp. r = Inr resp \<longrightarrow> http_fetch w (length (trace st)) req = Returns resp)
            \<and> (always_402 w \<longrightarrow> (\<exists>resp. r = Inr resp \<and> status resp = 402))"
proof -
  define req where "req = \<lparr>req_url = url,
                 req_headers = init(toLowerCase HDR_PROOF \<mapsto> signature prf,
                                    toLowerCase HDR_PAYER \<mapsto> payer prf)\<rparr>"
  have "always_402 w \<longrightarrow>
          (\<exists>resp. http_fetch w (length (trace st)) req = Returns resp \<and> status resp = 402)"
    unfolding always_402_def by blast
  moreover have "req_headers req (toLowerCase HDR_PROOF) = Some (signature prf)"
     "req_headers req (toLowerCase HDR_PAYER) = Some (payer prf)"
    by (simp_all add: req_def header_names)
  ultimately show ?thesis
    using assms unfolding fetchWithProof_def req_def [symmetric] Let_def
    by (auto simp: log_event_def split: outcome.splits)
qed

text \<open>
  C4, as the code has it. Against a server that always answers 402, one call of \<open>fetch\<close>
  makes at most one payment attempt and at most two requests. When it returns a
  response, that response is the answer to its last request, which carries the proof,
  returned as it is (a 402) with nothing paid after it; if a payment was made, exactly
  two requests were sent, the first attempt and one retry. When it fails instead, at
  most the first attempt was sent: there is no retry.
\<close>

theorem fetch_single_retry:
  assumes srv: "always_402 w" and run: "fetch w config url init st = (res, st')"
  shows "\<exists>evs. trace st' = trace st @ evs \<and> payments evs \<le> 1 \<and> http_requests evs \<le> 2
     \<and> (\<forall>resp. res = Inr resp \<longrightarrow>
           status resp = 402
           \<and> (\<exists>pre req. evs = pre @ [HttpFetch req]
                 \<and> req_headers req (toLowerCase HDR_PROOF) \<noteq> None
                 \<and> http_fetch w (length (trace st) + length pre) req = Returns resp)
           \<and> (payments evs = 1 \<longrightarrow> http_requests evs = 2))
     \<and> (\<forall>e. res = Inl e \<longrightarrow> http_requests evs \<le> 1)"
proof (cases "hostname w url")
  case Throws
  with run show ?thesis by (auto simp: fetch_def count_simps)
next
  case (Returns d)
  obtain g st1 where g: "getSession w d st = (g, st1)" by (cases "getSession w d st")
  obtain e1 where e1: "trace st1 = trace st @ e1" "payments e1 = 0" "http_requests e1 = 0"
    using getSession_trace [OF g] by (auto simp: count_simps)
  show ?thesis
  proof (cases g)
    case (Some c)
    with run Returns g have f: "fetchWithProof w url init (s_proof c) st1 = (res, st')"
      by (simp add: fetch_def)
    from fetchWithProof_trace [OF f] srv e1 show ?thesis
      by (auto simp: count_simps)
  next
    case None
    define req where "req = \<lparr>req_url = url, req_headers = init\<rparr>"
    let ?st2 = "log_event (HttpFetch req) st1"
    from srv obtain r1 where r1: "http_fetch w (length (trace st1)) req = Returns r1"
        "status r1 = 402"
      unfolding always_402_def by blast
    obtain dr st3 where dr: "discover w config d ?st2 = (dr, st3)"
      by (cases "discover w config d ?st2")
    obtain e3 where e3: "trace st3 = trace ?st2 @ [e3]" "\<not> is_payment e3" "\<not> is_http e3"
      using discover_trace [OF dr] by auto
    have t3: "trace st3 = trace st @ (e1 @ [HttpFetch req, e3])"
      using e1 e3 by (simp add: log_event_def)
    have c3: "payments (e1 @ [HttpFetch req, e3]) = 0"
        "http_requests (e1 @ [HttpFetch req, e3]) = 1"
      using e1 e3 by (simp_all add: count_simps)
    obtain pr st4 where pr: "pay w config d st3 = (pr, st4)" by (cases "pay w config d st3")
    obtain e4 where e4: "trace st4 = trace st3 @ e4" "payments e4 \<le> 1" "http_requests e4 = 0"
      using pay_trace [OF pr] by auto
    have stop: ?thesis if "res = Inl e" "st' = st3" for e
      using that t3 c3 by auto
    have stop4: ?thesis if "res = Inl e" "st' = st4" for e
    proof -
      have "trace st' = trace st @ ((e1 @ [HttpFetch req, e3]) @ e4)"
        using that t3 e4 by simp
      moreover have "payments ((e1 @ [HttpFetch req, e3]) @ e4) \<le> 1"
        "http_requests ((e1 @ [HttpFetch req, e3]) @ e4) \<le> 1"
        using c3 e4 by (simp_all add: count_simps)
      ultimately show ?thesis
        using that(1) by (intro exI [of _ "(e1 @ [HttpFetch req, e3]) @ e4"]) simp
    qed
    have retry: ?thesis if f: "fetchWithProof w url init (s_proof s) st4 = (res, st')" for s
    proof -
      from fetchWithProof_trace [OF f] srv obtain rq resp where
        rq: "trace st' = trace st4 @ [HttpFetch rq]"
            "req_headers rq (toLowerCase HDR_PROOF) \<noteq> None"
            "res = Inr resp" "status resp = 402"
            "http_fetch w (length (trace st4)) rq = Returns resp"
        by auto
      define pre where "pre = (e1 @ [HttpFetch req, e3]) @ e4"
      have "trace st' = trace st @ (pre @ [HttpFetch rq])"
        using rq(1) t3 e4 by (simp add: pre_def)
      moreover have "payments (pre @ [HttpFetch rq]) \<le> 1"
        "http_requests (pre @ [HttpFetch rq]) = 2"
        using c3 e4 by (simp_all add: pre_def count_simps)
      moreover have "http_fetch w (length (trace st) + length pre) rq = Returns resp"
        using rq(5) t3 e4 by (simp add: pre_def)
      ultimately show ?thesis
        using rq(2,3,4) by (intro exI [of _ "pre @ [HttpFetch rq]"]) auto
    qed
    have "(\<exists>e. res = Inl e \<and> st' = st3) \<or> (\<exists>e. res = Inl e \<and> st' = st4)
          \<or> (case pr of Inl e \<Rightarrow> False
                | Inr s \<Rightarrow> fetchWithProof w url init (s_proof s) st4 = (res, st'))"
      using run Returns g None r1 dr pr
      unfolding fetch_def req_def [symmetric] Let_def
      by (auto split: sum.splits option.splits if_splits)
    then show ?thesis
      using stop stop4 retry by (auto split: sum.splits)
  qed
qed

lemma always_402_ex: "always_402 world_402"
  by (simp add: always_402_def world_402_def send402_def)

lemma parse_cheap: "parseRecord ''v=dns402;p=0.01;c=USDC;n=solana;w=W1;t=1800'' = Some terms_ex"
  by (simp add: codec_eval terms_ex_def parseFloat_001 parseInt_1800 upper_USDC lower_solana)

lemma parseFloat_100: "parseFloat ''100'' = Fin 100"
  by (simp add: parseFloat_def is_ws_def is_digit_def digits_val_def digit_val_def
        exponent_part_def pow10_def Let_def)

lemma parse_expensive: "parseRecord ''v=dns402;p=100;c=USDC;n=solana;w=W2'' = Some expensive_ex"
  by (simp add: codec_eval expensive_ex_def parseFloat_100 upper_USDC lower_solana)

lemma price_ex:
  "\<not> num_gt (Fin (1 / 100)) (Fin (1 / 20))" "num_gt (Fin 100) (Fin (1 / 20))"
  by (simp_all add: num_gt_def rnd_small nearest_eval)

lemma expiry_ex:
  "num_add (Fin 1000) (num_mul (num_or (Some (Fin 1800)) (Fin 3600)) (Fin 1000)) = Fin 1801000"
  "num_add (Fin 1000) (num_mul (num_or None (Fin 3600)) (Fin 1000)) = Fin 3601000"
  "num_gt (Fin 1801000) (Fin 1000)"
  by (simp_all add: num_eval)

lemmas client_eval =
  fetch_def pay_def discover_def getSession_def fetchWithProof_def log_event_def
  world_402_def client_ex_def resolver_ex_def state0_def url_ex_def str_falsy_def
  parse_cheap parse_expensive autopay_ex_def terms_ex_def expensive_ex_def send402_def
  header_names price_ex expiry_ex

theorem fetch_single_retry_witness:
  "always_402 world_402
   \<and> (\<exists>resp st'. fetch world_402 (client_ex (Some autopay_ex)) url_ex Map.empty state0
                   = (Inr resp, st')
        \<and> status resp = 402 \<and> payments (trace st') = 1 \<and> http_requests (trace st') = 2)"
proof -
  obtain res st' where run:
    "fetch world_402 (client_ex (Some autopay_ex)) url_ex Map.empty state0 = (res, st')"
    by (cases "fetch world_402 (client_ex (Some autopay_ex)) url_ex Map.empty state0")
  have ok: "\<exists>resp. res = Inr resp" and paid: "payments (trace st') = 1"
    using run by (auto simp: client_eval Let_def count_simps)
  from fetch_single_retry [OF always_402_ex run] ok paid
  have "\<exists>resp. res = Inr resp \<and> status resp = 402 \<and> http_requests (trace st') = 2"
    by (auto simp: state0_def)
  with run paid always_402_ex show ?thesis by auto
qed

text \<open>
  The claim as the spec states it fails: with auto-pay off, the call sends the first
  request, discovers the terms and fails; there is no retry at all.
\<close>

theorem fetch_no_retry_counterexample:
  "always_402 world_402
   \<and> fst (fetch world_402 (client_ex None) url_ex Map.empty state0) = Inl PaymentRequired
   \<and> trace (snd (fetch world_402 (client_ex None) url_ex Map.empty state0))
       = [HttpFetch \<lparr>req_url = url_ex, req_headers = Map.empty\<rparr>, ResolverCall ''api.example.com'']
   \<and> http_requests (trace (snd (fetch world_402 (client_ex None) url_ex Map.empty state0))) = 1
   \<and> payments (trace (snd (fetch world_402 (client_ex None) url_ex Map.empty state0))) = 0"
  using always_402_ex by (simp add: client_eval Let_def count_simps)

subsection \<open>C5: paying twice\<close>

lemma pay_cached:
  assumes "cache st d = Some c" "num_gt (expiresAt c) (Fin (clock w (length (trace st))))"
  shows "pay w config d st = (Inr c, log_event ClockRead st)"
  using assms by (simp add: pay_def getSession_def cache_get_def)

lemma pay_caches:
  assumes "pay w config d st = (Inr s, st')" "sessionCache config = Some True"
  shows "cache st' d = Some s"
  using assms
  by (auto simp: pay_def getSession_def cache_get_def log_event_def Let_def
      split: option.splits if_splits sum.splits outcome.splits prod.splits)




subsection \<open>C9: which record is paid\<close>

lemma pay_sends:
  assumes "getSession w d st = (None, st1)" "discover w config d st1 = (Inr (Some r), st2)"
  shows "\<exists>rest. trace (snd (pay w config d st)) = trace st2 @ SendPaymentCall r # rest"
  using assms
  by (auto simp: pay_def log_event_def Let_def split: outcome.splits)




end
